theory Spec2Isabelle
  imports Main "HOL-Library.Word"
begin

section \<open>Data model of \<^verbatim>\<open>src/main.cpp\<close>\<close>

text \<open>
  The program keeps three globals: the flag \<^verbatim>\<open>programFinished\<close>, the list
  \<^verbatim>\<open>runningThreads\<close> of \<^verbatim>\<open>std::thread\<close> objects and the map
  \<^verbatim>\<open>threadsData\<close> from \<^verbatim>\<open>std::thread::id\<close> to \<^verbatim>\<open>ThreadData\<close>.
  \<^verbatim>\<open>int64_t\<close> and \<^verbatim>\<open>size_t\<close> are 64-bit words. \<^verbatim>\<open>killThread\<close> and
  \<^verbatim>\<open>resetThread\<close> build a \<^verbatim>\<open>std::thread::id\<close> from a \<^verbatim>\<open>size_t\<close>, so a thread id is
  a 64-bit word as well; the id of a \<^verbatim>\<open>std::thread\<close> that owns no thread of execution
  (the default-constructed id) is the word 0.
\<close>

type_synonym int64 = "64 word"
type_synonym size_t = "64 word"
type_synonym thread_id = "64 word"

record ThreadData =
  killed :: bool
  "value" :: int64

text \<open>
  What escapes a function of the program: the exceptions of the standard library that the
  source can raise, and the one place where the source leaves defined behaviour
  (\<^verbatim>\<open>runningThreads.erase(runningThreads.end())\<close> in \<^verbatim>\<open>killThread\<close>). An exception
  that nothing catches ends the process through \<^verbatim>\<open>std::terminate\<close>; so does the
  destruction of a joinable \<^verbatim>\<open>std::thread\<close>.
\<close>

datatype error =
    OutOfRange
  | InvalidArgument
  | LogicError string
  | SystemError
  | Terminate
  | UndefinedBehaviour

text \<open>
  The lambda that \<^verbatim>\<open>startNewThread\<close> runs in the new thread has two locals,
  \<^verbatim>\<open>threadId\<close> and \<^verbatim>\<open>threadValue\<close>, and four points at which it can be between two
  of its atomic actions: before it inserts its record (\<open>Register\<close>), before the test of
  \<^verbatim>\<open>programFinished\<close> at the head of the loop (\<open>LoopHead\<close>), after that test and the
  sleep, before the block that holds \<^verbatim>\<open>threadDataMutex\<close> (\<open>Tick\<close>), and after its
  last statement (\<open>Exited\<close>).
\<close>

datatype pc = Register | LoopHead | Tick | Exited

record worker =
  threadId :: thread_id
  pc :: pc
  threadValue :: int64

text \<open>
  A \<^verbatim>\<open>std::thread\<close> object either owns a thread of execution (it is joinable) or owns
  none (after \<^verbatim>\<open>join\<close>).
\<close>

datatype thread = Joinable worker | NotJoinable

fun get_id :: "thread \<Rightarrow> thread_id" where
  "get_id (Joinable w) = threadId w"
| "get_id NotJoinable = 0"

text \<open>The lines the program writes to \<^verbatim>\<open>std::cout\<close>, without their formatting.\<close>

datatype message =
    Started thread_id int64
  | Finished thread_id int64
  | Info thread_id int64
  | NewValue thread_id int64
  | ProvideThreadId
  | UnknownCommand
  | InitializerStarted
  | InitializerFinished
  | NotANumber
  | What string

record state =
  programFinished :: bool
  runningThreads :: "thread list"
  threadsData :: "thread_id \<rightharpoonup> ThreadData"
  cout :: "message list"

section \<open>The worker thread\<close>

text \<open>
  \<^verbatim>\<open>initializeThreadValue\<close>: the given value, or what \<^verbatim>\<open>std::rand()\<close> returns
  (\<open>rnd\<close>, an \<^verbatim>\<open>int\<close> chosen by the environment, converted to \<^verbatim>\<open>int64_t\<close>).
\<close>

definition initializeThreadValue :: "int \<Rightarrow> int64 option \<Rightarrow> int64" where
  "initializeThreadValue rnd initialValue =
     (case initialValue of Some v \<Rightarrow> v | None \<Rightarrow> of_int rnd)"

text \<open>\<^verbatim>\<open>std::map::insert\<close> leaves the map as it is when the key is present.\<close>

definition map_insert :: "'k \<Rightarrow> 'v \<Rightarrow> ('k \<rightharpoonup> 'v) \<Rightarrow> ('k \<rightharpoonup> 'v)" where
  "map_insert k v m = (case m k of None \<Rightarrow> m(k \<mapsto> v) | Some _ \<Rightarrow> m)"

text \<open>
  The block of the loop that runs under \<^verbatim>\<open>threadDataMutex\<close> (lines 95 to 102):
  \<^verbatim>\<open>threadsData.at(threadId)\<close> throws \<^verbatim>\<open>std::out_of_range\<close> when there is no record;
  a killed record makes the loop \<^verbatim>\<open>break\<close> (result \<open>None\<close>); otherwise the record's
  value is incremented and copied into \<^verbatim>\<open>threadValue\<close> (result \<open>Some\<close> of it). The
  increment is that of the 64-bit word, which wraps around as the compiled program does
  (C++ leaves the overflow of a signed increment undefined).
\<close>

definition tick ::
  "thread_id \<Rightarrow> (thread_id \<rightharpoonup> ThreadData) \<Rightarrow> error + (int64 option \<times> (thread_id \<rightharpoonup> ThreadData))"
where
  "tick t m =
     (case m t of
        None \<Rightarrow> Inl OutOfRange
      | Some threadData \<Rightarrow>
          if killed threadData then Inr (None, m)
          else let v = value threadData + 1
               in Inr (Some v, m(t \<mapsto> threadData\<lparr>value := v\<rparr>)))"

text \<open>
  One atomic action of the worker that the handle at position \<open>i\<close> of
  \<^verbatim>\<open>runningThreads\<close> owns. Nothing happens when there is no such worker or it has exited.
\<close>

definition set_worker :: "nat \<Rightarrow> worker \<Rightarrow> state \<Rightarrow> state" where
  "set_worker i w s = s\<lparr>runningThreads := (runningThreads s)[i := Joinable w]\<rparr>"

definition finish :: "nat \<Rightarrow> worker \<Rightarrow> state \<Rightarrow> state" where
  "finish i w s =
     (set_worker i (w\<lparr>pc := Exited\<rparr>) s)
       \<lparr>cout := cout s @ [Finished (threadId w) (threadValue w)]\<rparr>"

definition workerStep :: "nat \<Rightarrow> state \<Rightarrow> error + state" where
  "workerStep i s =
     (if length (runningThreads s) \<le> i then Inr s
      else case runningThreads s ! i of
        NotJoinable \<Rightarrow> Inr s
      | Joinable w \<Rightarrow>
          (case pc w of
             Register \<Rightarrow>
               Inr ((set_worker i (w\<lparr>pc := LoopHead\<rparr>) s)
                 \<lparr>threadsData :=
                    map_insert (threadId w) \<lparr>killed = False, value = threadValue w\<rparr> (threadsData s),
                  cout := cout s @ [Started (threadId w) (threadValue w)]\<rparr>)
           | LoopHead \<Rightarrow>
               if programFinished s then Inr (finish i w s)
               else Inr (set_worker i (w\<lparr>pc := Tick\<rparr>) s)
           | Tick \<Rightarrow>
               (case tick (threadId w) (threadsData s) of
                  Inl e \<Rightarrow> Inl e
                | Inr (None, m) \<Rightarrow> Inr (finish i w s)
                | Inr (Some v, m) \<Rightarrow>
                    Inr ((set_worker i (w\<lparr>pc := LoopHead, threadValue := v\<rparr>) s)
                      \<lparr>threadsData := m\<rparr>))
           | Exited \<Rightarrow> Inr s))"

section \<open>The pool: \<^verbatim>\<open>runningThreads\<close> and the operations on it\<close>

text \<open>
  \<^verbatim>\<open>startNewThread\<close> appends a \<^verbatim>\<open>std::thread\<close> that runs the lambda. The id of the
  new thread (\<open>newId\<close>) is chosen by the system and \<^verbatim>\<open>std::rand()\<close> returns what it
  returns (\<open>rnd\<close>); both are arguments of the model. The first two statements of the
  lambda, which read only its own id and argument, are done here, so the new worker starts
  at \<open>Register\<close>.
\<close>

definition startNewThread :: "thread_id \<Rightarrow> int \<Rightarrow> int64 option \<Rightarrow> state \<Rightarrow> state" where
  "startNewThread newId rnd initialValue s =
     s\<lparr>runningThreads := runningThreads s @
          [Joinable \<lparr>threadId = newId, pc = Register,
                     threadValue = initializeThreadValue rnd initialValue\<rparr>]\<rparr>"

text \<open>
  \<^verbatim>\<open>printThreadsInfo\<close> walks \<^verbatim>\<open>runningThreads\<close> with both mutexes held and prints
  \<^verbatim>\<open>threadsData.at(id).value\<close> for each; \<^verbatim>\<open>at\<close> throws \<^verbatim>\<open>std::out_of_range\<close> when
  the id has no record, and nothing in the program catches it.
\<close>

fun printLoop :: "thread list \<Rightarrow> state \<Rightarrow> error + state" where
  "printLoop [] s = Inr s"
| "printLoop (thread # rest) s =
     (let id = get_id thread
      in case threadsData s id of
           None \<Rightarrow> Inl OutOfRange
         | Some d \<Rightarrow> printLoop rest (s\<lparr>cout := cout s @ [Info id (value d)]\<rparr>))"

definition printThreadsInfo :: "state \<Rightarrow> error + state" where
  "printThreadsInfo s = printLoop (runningThreads s) s"

text \<open>
  \<^verbatim>\<open>std::thread::join\<close> on the handle at position \<open>i\<close>: it throws
  \<^verbatim>\<open>std::system_error\<close> when the handle is not joinable; otherwise it blocks until the
  thread of execution has exited, and the handle then owns nothing. While the caller is
  blocked the joined worker runs, one atomic action after the other; the result is \<open>None\<close>
  when the worker never exits, so that \<^verbatim>\<open>join\<close> never returns. Workers read and write
  only their own record and their own locals, so the actions that other workers perform
  in the meantime are left out.
\<close>

partial_function (option) join :: "nat \<Rightarrow> state \<Rightarrow> (error + state) option" where
  "join i s =
     (if length (runningThreads s) \<le> i then Some (Inl UndefinedBehaviour)
      else case runningThreads s ! i of
        NotJoinable \<Rightarrow> Some (Inl SystemError)
      | Joinable w \<Rightarrow>
          if pc w = Exited
          then Some (Inr (s\<lparr>runningThreads := (runningThreads s)[i := NotJoinable]\<rparr>))
          else (case workerStep i s of
                  Inl e \<Rightarrow> Some (Inl e)
                | Inr s' \<Rightarrow> join i s'))"

declare join.simps [code]

text \<open>
  \<^verbatim>\<open>std::find_if\<close> over \<^verbatim>\<open>runningThreads\<close>: the position of the first handle that
  satisfies the predicate, \<open>None\<close> for \<^verbatim>\<open>runningThreads.end()\<close>.
\<close>

fun find_if :: "('a \<Rightarrow> bool) \<Rightarrow> 'a list \<Rightarrow> nat option" where
  "find_if P [] = None"
| "find_if P (x # xs) =
     (if P x then Some 0 else map_option Suc (find_if P xs))"

text \<open>
  \<^verbatim>\<open>std::list::erase\<close> at a position destroys the handle there; the destructor of a
  joinable \<^verbatim>\<open>std::thread\<close> calls \<^verbatim>\<open>std::terminate\<close>.
\<close>

definition erase :: "nat \<Rightarrow> thread list \<Rightarrow> error + thread list" where
  "erase i ths =
     (if length ths \<le> i then Inl UndefinedBehaviour
      else case ths ! i of
        Joinable w \<Rightarrow> Inl Terminate
      | NotJoinable \<Rightarrow> Inr (take i ths @ drop (Suc i) ths))"

text \<open>
  \<^verbatim>\<open>killThread\<close>: return at once when the id has no record; otherwise set \<^verbatim>\<open>killed\<close>,
  look for the handle, join it when there is one, erase the record and erase the handle.
  When no handle has the id, the iterator is \<^verbatim>\<open>runningThreads.end()\<close> and erasing it is
  undefined.
\<close>

definition killThread :: "size_t \<Rightarrow> state \<Rightarrow> (error + state) option" where
  "killThread tid s =
     (let idToKill = tid
      in case threadsData s idToKill of
           None \<Rightarrow> Some (Inr s)
         | Some d \<Rightarrow>
             (let s1 = s\<lparr>threadsData := (threadsData s)(idToKill \<mapsto> d\<lparr>killed := True\<rparr>)\<rparr>
              in case find_if (\<lambda>thread. get_id thread = idToKill) (runningThreads s1) of
                   None \<Rightarrow> Some (Inl UndefinedBehaviour)
                 | Some threadIt \<Rightarrow>
                     (case join threadIt s1 of
                        None \<Rightarrow> None
                      | Some (Inl e) \<Rightarrow> Some (Inl e)
                      | Some (Inr s2) \<Rightarrow>
                          (case erase threadIt (runningThreads s2) of
                             Inl e \<Rightarrow> Some (Inl e)
                           | Inr ths \<Rightarrow>
                               Some (Inr (s2\<lparr>threadsData := (threadsData s2)(idToKill := None),
                                             runningThreads := ths\<rparr>))))))"

text \<open>
  \<^verbatim>\<open>killThread\<close> holds no mutex between the return of \<^verbatim>\<open>join\<close> (line 135) and its
  last block (lines 136 to 141), so other threads can act in between. The thread of
  \<^verbatim>\<open>main\<close> is either in \<^verbatim>\<open>listenToCommandLine\<close> or at that point of
  \<^verbatim>\<open>killThread\<close>, with its locals \<^verbatim>\<open>idToKill\<close> and \<^verbatim>\<open>threadIt\<close>
  (\<open>None\<close> for \<^verbatim>\<open>runningThreads.end()\<close>). \<open>killJoin\<close> is \<^verbatim>\<open>killThread\<close> up to that
  point (or up to its early return), \<open>killErase\<close> is the last block; \<^verbatim>\<open>killThread\<close>
  above is the one followed by the other with nothing in between.
\<close>

datatype mainThread = Listening | Erasing thread_id "nat option"

definition killJoin :: "size_t \<Rightarrow> state \<Rightarrow> (error + mainThread \<times> state) option" where
  "killJoin tid s =
     (let idToKill = tid
      in case threadsData s idToKill of
           None \<Rightarrow> Some (Inr (Listening, s))
         | Some d \<Rightarrow>
             (let s1 = s\<lparr>threadsData := (threadsData s)(idToKill \<mapsto> d\<lparr>killed := True\<rparr>)\<rparr>
              in case find_if (\<lambda>thread. get_id thread = idToKill) (runningThreads s1) of
                   None \<Rightarrow> Some (Inr (Erasing idToKill None, s1))
                 | Some threadIt \<Rightarrow>
                     (case join threadIt s1 of
                        None \<Rightarrow> None
                      | Some (Inl e) \<Rightarrow> Some (Inl e)
                      | Some (Inr s2) \<Rightarrow> Some (Inr (Erasing idToKill (Some threadIt), s2)))))"

definition killErase :: "thread_id \<Rightarrow> nat option \<Rightarrow> state \<Rightarrow> error + state" where
  "killErase idToKill threadIt s =
     (case threadIt of
        None \<Rightarrow> Inl UndefinedBehaviour
      | Some i \<Rightarrow>
          (case erase i (runningThreads s) of
             Inl e \<Rightarrow> Inl e
           | Inr ths \<Rightarrow>
               Inr (s\<lparr>threadsData := (threadsData s)(idToKill := None),
                       runningThreads := ths\<rparr>)))"

text \<open>
  \<^verbatim>\<open>resetThread\<close>: return at once, printing nothing, when the id has no record;
  otherwise overwrite the record's value and print the new value.
\<close>

definition resetThread :: "size_t \<Rightarrow> int64 \<Rightarrow> state \<Rightarrow> state" where
  "resetThread tid newValue s =
     (let idToReset = tid
      in case threadsData s idToReset of
           None \<Rightarrow> s
         | Some d \<Rightarrow>
             s\<lparr>threadsData := (threadsData s)(idToReset \<mapsto> d\<lparr>value := newValue\<rparr>),
               cout := cout s @ [NewValue idToReset newValue]\<rparr>)"

text \<open>
  \<^verbatim>\<open>stopRunningThreads\<close> joins every handle of \<^verbatim>\<open>runningThreads\<close>, first to last, and
  returns; it erases nothing.
\<close>

fun joinLoop :: "nat list \<Rightarrow> state \<Rightarrow> (error + state) option" where
  "joinLoop [] s = Some (Inr s)"
| "joinLoop (i # rest) s =
     (case join i s of
        None \<Rightarrow> None
      | Some (Inl e) \<Rightarrow> Some (Inl e)
      | Some (Inr s') \<Rightarrow> joinLoop rest s')"

definition stopRunningThreads :: "state \<Rightarrow> (error + state) option" where
  "stopRunningThreads s = joinLoop [0..<length (runningThreads s)] s"

section \<open>The command line of the operator\<close>

text \<open>
  \<^verbatim>\<open>parseCommand\<close> reads the line through a \<^verbatim>\<open>std::istringstream\<close>: the tokens are
  the maximal runs of characters that are not white space (\<^verbatim>\<open>isspace\<close> in the C
  locale: space, tab, line feed, vertical tab, form feed, carriage return). The first
  token is the command (empty when there is none), the others are its arguments.
\<close>

definition isspace :: "char \<Rightarrow> bool" where
  "isspace c = (of_char c \<in> {32, 9, 10, 11, 12, 13 :: nat})"

definition isdigit :: "char \<Rightarrow> bool" where
  "isdigit c = (48 \<le> (of_char c :: nat) \<and> (of_char c :: nat) \<le> 57)"

fun tokens :: "string \<Rightarrow> string \<Rightarrow> string list" where
  "tokens cur [] = (if cur = [] then [] else [cur])"
| "tokens cur (c # cs) =
     (if isspace c then (if cur = [] then tokens [] cs else cur # tokens [] cs)
      else tokens (cur @ [c]) cs)"

definition parseCommand :: "string \<Rightarrow> string \<times> string list" where
  "parseCommand line =
     (case tokens [] line of
        [] \<Rightarrow> ([], [])
      | command # arguments \<Rightarrow> (command, arguments))"

text \<open>
  \<^verbatim>\<open>std::stoi\<close> (base 10) skips leading white space, reads an optional sign and then
  the longest run of decimal digits, and ignores what follows. It throws
  \<^verbatim>\<open>std::invalid_argument\<close> when there is no digit and \<^verbatim>\<open>std::out_of_range\<close> when
  the number is not an \<^verbatim>\<open>int\<close> (32 bits).
\<close>

definition digits_value :: "string \<Rightarrow> int" where
  "digits_value ds = foldl (\<lambda>a c. 10 * a + (int (of_char c) - 48)) 0 ds"

definition stoi :: "string \<Rightarrow> error + int" where
  "stoi str =
     (let s1 = dropWhile isspace str;
          neg = (s1 \<noteq> [] \<and> hd s1 = CHR ''-'');
          s2 = (if s1 \<noteq> [] \<and> (hd s1 = CHR ''-'' \<or> hd s1 = CHR ''+'') then tl s1 else s1);
          ds = takeWhile isdigit s2;
          v = (if neg then - digits_value ds else digits_value ds)
      in if ds = [] then Inl InvalidArgument
         else if v < - (2 ^ 31) \<or> 2 ^ 31 - 1 < v then Inl OutOfRange
         else Inr v)"

text \<open>\<^verbatim>\<open>std::vector::at\<close> throws \<^verbatim>\<open>std::out_of_range\<close> past the end.\<close>

definition at :: "'a list \<Rightarrow> nat \<Rightarrow> error + 'a" where
  "at xs n = (if n < length xs then Inr (xs ! n) else Inl OutOfRange)"

text \<open>The expression \<^verbatim>\<open>std::stoi(arguments.at(n))\<close>.\<close>

definition stoi_at :: "string list \<Rightarrow> nat \<Rightarrow> error + int" where
  "stoi_at arguments n = (case at arguments n of Inl e \<Rightarrow> Inl e | Inr a \<Rightarrow> stoi a)"

text \<open>
  \<^verbatim>\<open>invokeCommand\<close>. Every \<^verbatim>\<open>catch (...)\<close> of the source is a case on the result of
  \<^verbatim>\<open>stoi_at\<close>. The \<^verbatim>\<open>int\<close> that \<^verbatim>\<open>std::stoi\<close> returns is converted to
  \<^verbatim>\<open>size_t\<close> (an id) or to \<^verbatim>\<open>int64_t\<close> (a value), both modulo \<open>2 ^ 64\<close>. The id and
  the random number that a new thread would get are arguments, as in
  \<^verbatim>\<open>startNewThread\<close>.
\<close>

definition say :: "message \<Rightarrow> state \<Rightarrow> state" where
  "say m s = s\<lparr>cout := cout s @ [m]\<rparr>"

definition invokeCommand :: "thread_id \<Rightarrow> int \<Rightarrow> string \<Rightarrow> state \<Rightarrow> (error + state) option" where
  "invokeCommand newId rnd line s =
     (case parseCommand line of (command, arguments) \<Rightarrow>
        if command = ''info'' then Some (printThreadsInfo s)
        else if command = ''new'' then
          (let value = (case stoi_at arguments 0 of Inl e \<Rightarrow> None | Inr v \<Rightarrow> Some (of_int v))
           in Some (Inr (startNewThread newId rnd value s)))
        else if command = ''kill'' then
          (case stoi_at arguments 0 of
             Inl e \<Rightarrow> Some (Inr (say ProvideThreadId s))
           | Inr v \<Rightarrow> killThread (of_int v) s)
        else if command = ''reset'' then
          (case stoi_at arguments 0 of
             Inl e \<Rightarrow> Some (Inr (say ProvideThreadId s))
           | Inr v \<Rightarrow>
               (let newValue = (case stoi_at arguments 1 of Inl e \<Rightarrow> 0 | Inr n \<Rightarrow> of_int n)
                in Some (Inr (resetThread (of_int v) newValue s))))
        else if command = ''stop'' then
          stopRunningThreads (s\<lparr>programFinished := True\<rparr>)
        else Some (Inr (say UnknownCommand s)))"

text \<open>
  \<^verbatim>\<open>invokeCommand\<close> as the thread of \<^verbatim>\<open>main\<close> runs it among the other threads:
  the same function, except that \<^verbatim>\<open>kill\<close> goes only as far as \<open>killJoin\<close> and
  leaves the last block of \<^verbatim>\<open>killThread\<close> to a later action of the thread.
\<close>

definition dispatch ::
  "thread_id \<Rightarrow> int \<Rightarrow> string \<Rightarrow> state \<Rightarrow> (error + mainThread \<times> state) option" where
  "dispatch newId rnd line s =
     (case parseCommand line of (command, arguments) \<Rightarrow>
        if command = ''kill'' then
          (case stoi_at arguments 0 of
             Inl e \<Rightarrow> Some (Inr (Listening, say ProvideThreadId s))
           | Inr v \<Rightarrow> killJoin (of_int v) s)
        else (case invokeCommand newId rnd line s of
                None \<Rightarrow> None
              | Some (Inl e) \<Rightarrow> Some (Inl e)
              | Some (Inr s') \<Rightarrow> Some (Inr (Listening, s'))))"

section \<open>Start-up: \<^verbatim>\<open>parseCommandLine\<close> and \<^verbatim>\<open>main\<close>\<close>

definition convertArgumentToPositiveInteger :: "string \<Rightarrow> error + int" where
  "convertArgumentToPositiveInteger arg =
     (case stoi arg of
        Inl e \<Rightarrow> Inl e
      | Inr v \<Rightarrow>
          if v < 0 then Inl (LogicError ''Parameter value must be a positive integer number'')
          else Inr v)"

text \<open>
  The \<^verbatim>\<open>for\<close> loop of \<^verbatim>\<open>parseCommandLine\<close> over \<^verbatim>\<open>argv[1]\<close>, \<^verbatim>\<open>argv[2]\<close>, ...: an
  option is recognised only when another argument follows it (\<^verbatim>\<open>i + 1 < argc\<close>), and
  that argument is consumed as its value. The pair is (\<^verbatim>\<open>numberOfThreads\<close>,
  \<^verbatim>\<open>threadStartDelay\<close> in seconds).
\<close>

fun parseLoop :: "string list \<Rightarrow> nat \<times> nat \<Rightarrow> error + nat \<times> nat" where
  "parseLoop [] cfg = Inr cfg"
| "parseLoop [argument] cfg =
     Inl (LogicError (''Unknown command line parameter '' @ argument))"
| "parseLoop (argument # arg # rest) (numberOfThreads, threadStartDelay) =
     (if argument = ''--threads'' then
        (case convertArgumentToPositiveInteger arg of
           Inl e \<Rightarrow> Inl e
         | Inr v \<Rightarrow> parseLoop rest (nat v, threadStartDelay))
      else if argument = ''--delay'' then
        (case convertArgumentToPositiveInteger arg of
           Inl e \<Rightarrow> Inl e
         | Inr v \<Rightarrow> parseLoop rest (numberOfThreads, nat v))
      else Inl (LogicError (''Unknown command line parameter '' @ argument)))"

text \<open>
  The two handlers of \<^verbatim>\<open>parseCommandLine\<close>: \<^verbatim>\<open>std::invalid_argument\<close> is caught by
  the first one, every other \<^verbatim>\<open>std::logic_error\<close> (\<^verbatim>\<open>std::out_of_range\<close> is one) by
  the second one, which prints \<^verbatim>\<open>e.what()\<close>; both call \<^verbatim>\<open>exit(1)\<close>. The result is
  the line printed and the exit code, or the configuration. \<open>hw\<close> is what
  \<^verbatim>\<open>std::thread::hardware_concurrency()\<close> returns.
\<close>

fun what :: "error \<Rightarrow> string" where
  "what (LogicError m) = m"
| "what OutOfRange = ''stoi''"
| "what InvalidArgument = ''stoi''"
| "what e = []"

definition parseCommandLine :: "nat \<Rightarrow> string list \<Rightarrow> (message \<times> int) + (nat \<times> nat)" where
  "parseCommandLine hw argv =
     (case parseLoop (tl argv) (hw, 1) of
        Inl e \<Rightarrow> if e = InvalidArgument then Inl (NotANumber, 1) else Inl (What (what e), 1)
      | Inr cfg \<Rightarrow> Inr cfg)"

text \<open>
  The thread that \<^verbatim>\<open>launchThreads\<close> creates: it prints a line, runs the loop
  \<^verbatim>\<open>for (i = 0; i < number && !programFinished; ++i) startNewThread()\<close> and prints a
  line. Its state is the point it has reached: before its first line, at the test of the
  loop, after a test that succeeded and before \<^verbatim>\<open>startNewThread\<close> (which takes
  \<^verbatim>\<open>threadPoolMutex\<close> only then, whatever \<^verbatim>\<open>programFinished\<close> has become), or after
  its last line. The delay between two iterations is not modelled.
\<close>

datatype launcher = NotStarted | Launching nat | Spawning nat | LauncherDone

definition launcherStep ::
  "nat \<Rightarrow> thread_id \<Rightarrow> int \<Rightarrow> launcher \<times> state \<Rightarrow> launcher \<times> state" where
  "launcherStep number newId rnd c =
     (case c of (l, s) \<Rightarrow>
        (case l of
           NotStarted \<Rightarrow> (Launching 0, say InitializerStarted s)
         | Launching i \<Rightarrow>
             if i < number \<and> \<not> programFinished s then (Spawning i, s)
             else (LauncherDone, say InitializerFinished s)
         | Spawning i \<Rightarrow> (Launching (Suc i), startNewThread newId rnd None s)
         | LauncherDone \<Rightarrow> (l, s)))"

text \<open>
  The process runs the thread of \<^verbatim>\<open>main\<close>, the launcher and the workers side by side.
  An interleaving is a list of events: the operator's next line is read and dispatched
  (with the id and random number a thread created by that command would get), the thread
  of \<^verbatim>\<open>main\<close> runs the last block of a \<^verbatim>\<open>killThread\<close> whose \<^verbatim>\<open>join\<close> has
  returned, the launcher performs its next action (with the id and random number of the
  thread it may create), or the worker at a position of \<^verbatim>\<open>runningThreads\<close> performs its
  next action. A line is read only while the thread of \<^verbatim>\<open>main\<close> is in
  \<^verbatim>\<open>listenToCommandLine\<close> and \<^verbatim>\<open>programFinished\<close> is false; a line that comes
  at another moment is not read by this event. An action that holds a mutex from its first
  to its last access of the shared data is one event. A command that waits in
  \<^verbatim>\<open>join\<close> is one event up to the return of \<^verbatim>\<open>join\<close>: until then the id of the joined
  thread is not given to another thread, the launcher only appends to the list, and the
  other workers touch their own records, so that what they do in the meantime is an event
  before or after this one. What follows the return of \<^verbatim>\<open>join\<close> in \<^verbatim>\<open>killThread\<close> is
  an event of its own, and so are the test of the launcher's loop and the
  \<^verbatim>\<open>startNewThread\<close> that follows it.
\<close>

datatype event =
    Line string thread_id int
  | Erase
  | Launch thread_id int
  | Work nat

definition exec ::
  "nat \<Rightarrow> event \<Rightarrow> mainThread \<times> launcher \<times> state \<Rightarrow>
   (error + mainThread \<times> launcher \<times> state) option" where
  "exec number ev c =
     (case c of (m, l, s) \<Rightarrow>
        (case ev of
           Line line newId rnd \<Rightarrow>
             if m \<noteq> Listening \<or> programFinished s then Some (Inr c)
             else (case dispatch newId rnd line s of
                     None \<Rightarrow> None
                   | Some (Inl e) \<Rightarrow> Some (Inl e)
                   | Some (Inr (m', s')) \<Rightarrow> Some (Inr (m', l, s')))
         | Erase \<Rightarrow>
             (case m of
                Listening \<Rightarrow> Some (Inr c)
              | Erasing idToKill threadIt \<Rightarrow>
                  (case killErase idToKill threadIt s of
                     Inl e \<Rightarrow> Some (Inl e)
                   | Inr s' \<Rightarrow> Some (Inr (Listening, l, s'))))
         | Launch newId rnd \<Rightarrow>
             (case launcherStep number newId rnd (l, s) of
                (l', s') \<Rightarrow> Some (Inr (m, l', s')))
         | Work i \<Rightarrow>
             (case workerStep i s of
                Inl e \<Rightarrow> Some (Inl e)
              | Inr s' \<Rightarrow> Some (Inr (m, l, s')))))"

text \<open>
  \<^verbatim>\<open>listenToCommandLine\<close> returns as soon as the thread of \<^verbatim>\<open>main\<close> is back at the
  test of its loop with \<^verbatim>\<open>programFinished\<close> set; the events that are left are those
  that happen afterwards. When the events run out before that, the loop is still running:
  the result is \<open>None\<close>.
\<close>

fun run ::
  "nat \<Rightarrow> event list \<Rightarrow> mainThread \<times> launcher \<times> state \<Rightarrow>
   (error + event list \<times> mainThread \<times> launcher \<times> state) option" where
  "run number [] (m, l, s) =
     (if m = Listening \<and> programFinished s then Some (Inr ([], m, l, s)) else None)"
| "run number (ev # evs) (m, l, s) =
     (if m = Listening \<and> programFinished s then Some (Inr (ev # evs, m, l, s))
      else case exec number ev (m, l, s) of
             None \<Rightarrow> None
           | Some (Inl e) \<Rightarrow> Some (Inl e)
           | Some (Inr c') \<Rightarrow> run number evs c')"

definition init :: state where
  "init = \<lparr>programFinished = False, runningThreads = [], threadsData = Map.empty, cout = []\<rparr>"

text \<open>
  \<^verbatim>\<open>threadCreatorThread.join()\<close> at the end of \<^verbatim>\<open>main\<close>: the thread of \<^verbatim>\<open>main\<close>
  reads no line any more and waits until the launcher has printed its last line; the
  launcher and the workers go on. The result is \<open>None\<close> when the events run out before
  the launcher is done.
\<close>

fun joinLauncher ::
  "nat \<Rightarrow> event list \<Rightarrow> launcher \<times> state \<Rightarrow> (error + launcher \<times> state) option" where
  "joinLauncher number [] (l, s) = (if l = LauncherDone then Some (Inr (l, s)) else None)"
| "joinLauncher number (ev # evs) (l, s) =
     (if l = LauncherDone then Some (Inr (l, s))
      else case ev of
        Launch newId rnd \<Rightarrow> joinLauncher number evs (launcherStep number newId rnd (l, s))
      | Work i \<Rightarrow>
          (case workerStep i s of
             Inl e \<Rightarrow> Some (Inl e)
           | Inr s' \<Rightarrow> joinLauncher number evs (l, s'))
      | Line line newId rnd \<Rightarrow> joinLauncher number evs (l, s)
      | Erase \<Rightarrow> joinLauncher number evs (l, s))"

text \<open>
  How the process ends: \<^verbatim>\<open>exit(1)\<close> in \<^verbatim>\<open>parseCommandLine\<close>, \<^verbatim>\<open>return 0\<close> at the
  end of \<^verbatim>\<open>main\<close>, or \<^verbatim>\<open>std::terminate\<close>: for an exception that nothing catches, or
  when \<^verbatim>\<open>runningThreads\<close> is destroyed after \<^verbatim>\<open>main\<close> with a joinable thread in it.
  An exit carries its code and what was printed.
\<close>

datatype exit = Exit int "message list" | Aborted error

definition joinable :: "thread \<Rightarrow> bool" where
  "joinable thread = (case thread of Joinable w \<Rightarrow> True | NotJoinable \<Rightarrow> False)"

definition main :: "nat \<Rightarrow> string list \<Rightarrow> event list \<Rightarrow> exit option" where
  "main hw argv evs =
     (case parseCommandLine hw argv of
        Inl (m, code) \<Rightarrow> Some (Exit code [m])
      | Inr (numberOfThreads, threadStartDelay) \<Rightarrow>
          (case run numberOfThreads evs (Listening, NotStarted, init) of
             None \<Rightarrow> None
           | Some (Inl e) \<Rightarrow> Some (Aborted e)
           | Some (Inr (rest, m, l, s)) \<Rightarrow>
               (case joinLauncher numberOfThreads rest (l, s) of
                  None \<Rightarrow> None
                | Some (Inl e) \<Rightarrow> Some (Aborted e)
                | Some (Inr (l', s')) \<Rightarrow>
                    if list_ex joinable (runningThreads s') then Some (Aborted Terminate)
                    else Some (Exit 0 (cout s')))))"

section \<open>Predicates used in the statements and proofs\<close>

text \<open>
  What a \<^verbatim>\<open>join\<close> that returns leaves behind when \<^verbatim>\<open>programFinished\<close> is set: the
  flag, the other handles and the length of the list are what they were, the joined
  handle owns nothing, and every record is still there with its \<^verbatim>\<open>killed\<close> flag.
\<close>

definition joined :: "nat \<Rightarrow> state \<Rightarrow> state \<Rightarrow> bool" where
  "joined i s s' \<longleftrightarrow>
     programFinished s' = programFinished s \<and>
     runningThreads s' = (runningThreads s)[i := NotJoinable] \<and>
     (\<forall>t d. threadsData s t = Some d \<longrightarrow>
        (\<exists>d'. threadsData s' t = Some d' \<and> killed d' = killed d))"

text \<open>
  A handle is ready to be joined under \<^verbatim>\<open>programFinished\<close> when it is joinable and
  its worker, if it is about to look its record up, has one.
\<close>

definition ready :: "state \<Rightarrow> thread \<Rightarrow> bool" where
  "ready s thread \<longleftrightarrow>
     (case thread of
        NotJoinable \<Rightarrow> False
      | Joinable w \<Rightarrow> pc w = Tick \<longrightarrow> threadsData s (threadId w) \<noteq> None)"

text \<open>
  Between two states: every record of the first is still there in the second with the
  same \<^verbatim>\<open>killed\<close> flag, and every record that is new in the second is not killed.
\<close>

definition flags_kept :: "state \<Rightarrow> state \<Rightarrow> bool" where
  "flags_kept s s' \<longleftrightarrow>
     (\<forall>t d. threadsData s t = Some d \<longrightarrow>
        (\<exists>d'. threadsData s' t = Some d' \<and> killed d' = killed d)) \<and>
     (\<forall>t d'. threadsData s t = None \<longrightarrow> threadsData s' t = Some d' \<longrightarrow> \<not> killed d')"

text \<open>
  What a worker still prints when \<^verbatim>\<open>join\<close> waits for it and its record is killed: the
  line of its start if it has not printed it yet, and the line of its end.
\<close>

definition lastLines :: "worker \<Rightarrow> message list" where
  "lastLines w =
     (case pc w of
        Register \<Rightarrow> [Started (threadId w) (threadValue w), Finished (threadId w) (threadValue w)]
      | LoopHead \<Rightarrow> [Finished (threadId w) (threadValue w)]
      | Tick \<Rightarrow> [Finished (threadId w) (threadValue w)]
      | Exited \<Rightarrow> [])"

section \<open>Properties of the worker\<close>

lemma tick_killed: "m t = Some d \<Longrightarrow> killed d \<Longrightarrow> tick t m = Inr (None, m)"
  by (simp add: tick_def)

lemma tick_alive:
  "m t = Some d \<Longrightarrow> \<not> killed d \<Longrightarrow>
     tick t m = Inr (Some (value d + 1), m(t \<mapsto> d\<lparr>value := value d + 1\<rparr>))"
  by (simp add: tick_def Let_def)

lemma tick_missing: "m t = None \<Longrightarrow> tick t m = Inl OutOfRange"
  by (simp add: tick_def)

text \<open>Below the largest \<^verbatim>\<open>int64_t\<close> the increment of the word is that of the integer.\<close>

lemma sint_succ:
  fixes v :: int64
  assumes "sint v < 2 ^ 63 - 1"
  shows "sint (v + 1) = sint v + 1"
proof -
  have lo: "- (2 ^ 63) \<le> sint v" using sint_ge [of v] by simp
  have "sint (v + 1) = signed_take_bit 63 (sint v + 1)"
    by (simp add: sint_word_ariths)
  also have "\<dots> = sint v + 1"
    using lo assms by (intro signed_take_bit_int_eq_self) simp_all
  finally show ?thesis .
qed

lemma workerStep_Tick:
  "i < length (runningThreads s) \<Longrightarrow> runningThreads s ! i = Joinable w \<Longrightarrow> pc w = Tick \<Longrightarrow>
   workerStep i s =
     (case tick (threadId w) (threadsData s) of
        Inl e \<Rightarrow> Inl e
      | Inr (None, m) \<Rightarrow> Inr (finish i w s)
      | Inr (Some v, m) \<Rightarrow>
          Inr ((set_worker i (w\<lparr>pc := LoopHead, threadValue := v\<rparr>) s)\<lparr>threadsData := m\<rparr>))"
  by (simp add: workerStep_def)

lemma resetThread_data:
  "threadsData s t = Some d \<Longrightarrow>
   threadsData (resetThread t v s) = (threadsData s)(t \<mapsto> d\<lparr>value := v\<rparr>)"
  by (simp add: resetThread_def)

text \<open>
  Claim C3. A worker about to execute the block under \<^verbatim>\<open>threadDataMutex\<close>, whose record
  is \<open>d\<close>: when \<open>d\<close> is killed the worker leaves the loop and exits, and \<^verbatim>\<open>threadsData\<close>
  is what it was; otherwise the step replaces the record's value by the value plus one,
  leaves \<^verbatim>\<open>killed\<close> and every other record alone, copies the new value into
  \<^verbatim>\<open>threadValue\<close> and goes back to the head of the loop. Below the largest
  \<^verbatim>\<open>int64_t\<close> the new value is the old one plus one as integers. After
  \<^verbatim>\<open>resetThread\<close> has stored \<open>v\<close>, the next tick stores and returns \<open>v + 1\<close>.
\<close>

theorem worker_tick_stops_or_increments:
  assumes i: "i < length (runningThreads s)"
    and w: "runningThreads s ! i = Joinable w"
    and pc: "pc w = Tick"
    and d: "threadsData s (threadId w) = Some d"
  shows "(killed d \<longrightarrow>
            workerStep i s = Inr (finish i w s) \<and>
            threadsData (finish i w s) = threadsData s \<and>
            runningThreads (finish i w s) ! i = Joinable (w\<lparr>pc := Exited\<rparr>)) \<and>
         (\<not> killed d \<longrightarrow>
            (\<exists>s'. workerStep i s = Inr s' \<and>
               threadsData s' = (threadsData s)(threadId w \<mapsto> d\<lparr>value := value d + 1\<rparr>) \<and>
               runningThreads s' ! i = Joinable (w\<lparr>pc := LoopHead, threadValue := value d + 1\<rparr>)) \<and>
            (sint (value d) < 2 ^ 63 - 1 \<longrightarrow> sint (value d + 1) = sint (value d) + 1) \<and>
            (\<forall>v. tick (threadId w) (threadsData (resetThread (threadId w) v s)) =
                   Inr (Some (v + 1), (threadsData s)(threadId w \<mapsto> d\<lparr>value := v + 1\<rparr>))))"
proof (intro conjI impI allI)
  assume k: "killed d"
  show "workerStep i s = Inr (finish i w s)"
    using i w pc d k by (simp add: workerStep_Tick tick_killed)
  show "threadsData (finish i w s) = threadsData s"
    by (simp add: finish_def set_worker_def)
  show "runningThreads (finish i w s) ! i = Joinable (w\<lparr>pc := Exited\<rparr>)"
    using i by (simp add: finish_def set_worker_def)
next
  assume k: "\<not> killed d"
  show "\<exists>s'. workerStep i s = Inr s' \<and>
     threadsData s' = (threadsData s)(threadId w \<mapsto> d\<lparr>value := value d + 1\<rparr>) \<and>
     runningThreads s' ! i = Joinable (w\<lparr>pc := LoopHead, threadValue := value d + 1\<rparr>)"
    using i w pc d k by (simp add: workerStep_Tick tick_alive set_worker_def)
next
  assume "sint (value d) < 2 ^ 63 - 1"
  then show "sint (value d + 1) = sint (value d) + 1" by (rule sint_succ)
next
  fix v
  assume k: "\<not> killed d"
  have "threadsData (resetThread (threadId w) v s) (threadId w) = Some (d\<lparr>value := v\<rparr>)"
    using d by (simp add: resetThread_data)
  moreover have "\<not> killed (d\<lparr>value := v\<rparr>)" using k by simp
  ultimately show "tick (threadId w) (threadsData (resetThread (threadId w) v s)) =
      Inr (Some (v + 1), (threadsData s)(threadId w \<mapsto> d\<lparr>value := v + 1\<rparr>))"
    using d by (simp add: tick_alive resetThread_data)
qed

theorem worker_tick_stops_or_increments_witness:
  "workerStep 0
     \<lparr>programFinished = False,
      runningThreads = [Joinable \<lparr>threadId = 7, pc = Tick, threadValue = 41\<rparr>],
      threadsData = [7 \<mapsto> \<lparr>killed = False, value = 41\<rparr>], cout = []\<rparr> =
   Inr \<lparr>programFinished = False,
      runningThreads = [Joinable \<lparr>threadId = 7, pc = LoopHead, threadValue = 42\<rparr>],
      threadsData = [7 \<mapsto> \<lparr>killed = False, value = 42\<rparr>], cout = []\<rparr> \<and>
   workerStep 0
     \<lparr>programFinished = False,
      runningThreads = [Joinable \<lparr>threadId = 7, pc = Tick, threadValue = 41\<rparr>],
      threadsData = [7 \<mapsto> \<lparr>killed = True, value = 41\<rparr>], cout = []\<rparr> =
   Inr \<lparr>programFinished = False,
      runningThreads = [Joinable \<lparr>threadId = 7, pc = Exited, threadValue = 41\<rparr>],
      threadsData = [7 \<mapsto> \<lparr>killed = True, value = 41\<rparr>], cout = [Finished 7 41]\<rparr>"
proof -
  let ?w = "\<lparr>threadId = 7, pc = Tick, threadValue = 41\<rparr> :: worker"
  let ?s = "\<lambda>k. \<lparr>programFinished = False, runningThreads = [Joinable ?w],
      threadsData = [7 \<mapsto> \<lparr>killed = k, value = 41\<rparr>], cout = []\<rparr>"
  have a: "\<exists>s'. workerStep 0 (?s False) = Inr s' \<and>
      threadsData s' = (threadsData (?s False))(7 \<mapsto> \<lparr>killed = False, value = 42\<rparr>) \<and>
      runningThreads s' ! 0 = Joinable \<lparr>threadId = 7, pc = LoopHead, threadValue = 42\<rparr>"
    using worker_tick_stops_or_increments [of 0 "?s False" ?w "\<lparr>killed = False, value = 41\<rparr>"]
    by simp
  have b: "workerStep 0 (?s True) = Inr (finish 0 ?w (?s True))"
    using worker_tick_stops_or_increments [of 0 "?s True" ?w "\<lparr>killed = True, value = 41\<rparr>"]
    by simp
  show ?thesis
    using a b by (auto simp: finish_def set_worker_def workerStep_def tick_def)
qed

section \<open>Properties of the pool operations\<close>

text \<open>
  Claim C6. \<^verbatim>\<open>resetThread\<close> on an id without a record returns the state as it is
  (and prints nothing). On an id with a record it stores the new value in that record and
  keeps the record's \<^verbatim>\<open>killed\<close>; every other record, \<^verbatim>\<open>runningThreads\<close> and
  \<^verbatim>\<open>programFinished\<close> are what they were.
\<close>

theorem resetThread_frame:
  "(threadsData s t = None \<longrightarrow> resetThread t v s = s) \<and>
   (\<forall>d. threadsData s t = Some d \<longrightarrow>
        threadsData (resetThread t v s) t = Some \<lparr>killed = killed d, value = v\<rparr>) \<and>
   (\<forall>u. u \<noteq> t \<longrightarrow> threadsData (resetThread t v s) u = threadsData s u) \<and>
   runningThreads (resetThread t v s) = runningThreads s \<and>
   programFinished (resetThread t v s) = programFinished s"
  by (cases "threadsData s t") (simp_all add: resetThread_def)

theorem resetThread_frame_witness:
  "resetThread 7 99
     \<lparr>programFinished = False,
      runningThreads = [Joinable \<lparr>threadId = 7, pc = Tick, threadValue = 3\<rparr>],
      threadsData = [7 \<mapsto> \<lparr>killed = True, value = 3\<rparr>], cout = []\<rparr> =
   \<lparr>programFinished = False,
      runningThreads = [Joinable \<lparr>threadId = 7, pc = Tick, threadValue = 3\<rparr>],
      threadsData = [7 \<mapsto> \<lparr>killed = True, value = 99\<rparr>], cout = [NewValue 7 99]\<rparr> \<and>
   resetThread 8 99
     \<lparr>programFinished = False,
      runningThreads = [Joinable \<lparr>threadId = 7, pc = Tick, threadValue = 3\<rparr>],
      threadsData = [7 \<mapsto> \<lparr>killed = True, value = 3\<rparr>], cout = []\<rparr> =
   \<lparr>programFinished = False,
      runningThreads = [Joinable \<lparr>threadId = 7, pc = Tick, threadValue = 3\<rparr>],
      threadsData = [7 \<mapsto> \<lparr>killed = True, value = 3\<rparr>], cout = []\<rparr>"
proof -
  let ?s = "\<lparr>programFinished = False,
      runningThreads = [Joinable \<lparr>threadId = 7, pc = Tick, threadValue = 3\<rparr>],
      threadsData = [7 \<mapsto> \<lparr>killed = True, value = 3\<rparr>], cout = []\<rparr>"
  have a: "threadsData (resetThread 7 99 ?s) 7 = Some \<lparr>killed = True, value = 99\<rparr>"
    using resetThread_frame [of ?s 7 99] by simp
  have b: "resetThread 8 99 ?s = ?s"
    using resetThread_frame [of ?s 8 99] by simp
  show ?thesis
    using a b by (simp add: resetThread_def)
qed

subsection \<open>\<^verbatim>\<open>find_if\<close> and \<^verbatim>\<open>erase\<close>\<close>

lemma find_if_Some:
  "find_if P xs = Some i \<Longrightarrow> i < length xs \<and> P (xs ! i) \<and> (\<forall>j<i. \<not> P (xs ! j))"
proof (induction xs arbitrary: i)
  case Nil
  then show ?case by simp
next
  case (Cons x xs)
  show ?case
  proof (cases "P x")
    case True
    with Cons.prems show ?thesis by simp
  next
    case False
    with Cons.prems obtain k where k: "find_if P xs = Some k" "i = Suc k"
      by auto
    from Cons.IH [OF k(1)] False k(2) show ?thesis
      by (auto simp: nth_Cons split: nat.splits)
  qed
qed

lemma find_if_None: "find_if P xs = None \<longleftrightarrow> (\<forall>x\<in>set xs. \<not> P x)"
  by (induction xs) auto

lemma find_if_unique:
  assumes "i < length xs" and "P (xs ! i)" and "\<forall>j<length xs. j \<noteq> i \<longrightarrow> \<not> P (xs ! j)"
  shows "find_if P xs = Some i"
proof (cases "find_if P xs")
  case None
  with assms(1,2) show ?thesis by (auto simp: find_if_None)
next
  case (Some k)
  from find_if_Some [OF Some] assms(3) have "k = i" by blast
  with Some show ?thesis by simp
qed

lemma in_set_erase_position:
  assumes "i < length xs" and "x \<in> set (take i xs @ drop (Suc i) xs)"
  shows "\<exists>j<length xs. j \<noteq> i \<and> x = xs ! j"
proof -
  from assms(2) consider "x \<in> set (take i xs)" | "x \<in> set (drop (Suc i) xs)"
    by auto
  then show ?thesis
  proof cases
    case 1
    then obtain k where "k < length (take i xs)" "take i xs ! k = x"
      by (auto simp: in_set_conv_nth)
    with assms(1) have "k < length xs" "k \<noteq> i" "x = xs ! k" by auto
    then show ?thesis by blast
  next
    case 2
    then obtain k where k: "k < length (drop (Suc i) xs)" "drop (Suc i) xs ! k = x"
      by (auto simp: in_set_conv_nth)
    with assms(1) have "Suc i + k < length xs" "Suc i + k \<noteq> i" "x = xs ! (Suc i + k)"
      by auto
    then show ?thesis by blast
  qed
qed

subsection \<open>\<^verbatim>\<open>join\<close> on a worker whose record is killed\<close>

lemma join_Exited:
  assumes "i < length (runningThreads s)" and "runningThreads s ! i = Joinable w"
    and "pc w = Exited"
  shows "join i s = Some (Inr (s\<lparr>runningThreads := (runningThreads s)[i := NotJoinable]\<rparr>))"
  using assms by (subst join.simps) simp

lemma join_step:
  assumes "i < length (runningThreads s)" and "runningThreads s ! i = Joinable w"
    and "pc w \<noteq> Exited" and "workerStep i s = Inr s'"
  shows "join i s = join i s'"
  using assms by (subst join.simps) simp

lemma join_error:
  assumes "i < length (runningThreads s)" and "runningThreads s ! i = Joinable w"
    and "pc w \<noteq> Exited" and "workerStep i s = Inl e"
  shows "join i s = Some (Inl e)"
  using assms by (subst join.simps) simp

lemma workerStep_LoopHead:
  "i < length (runningThreads s) \<Longrightarrow> runningThreads s ! i = Joinable w \<Longrightarrow> pc w = LoopHead \<Longrightarrow>
   workerStep i s =
     (if programFinished s then Inr (finish i w s) else Inr (set_worker i (w\<lparr>pc := Tick\<rparr>) s))"
  by (simp add: workerStep_def)

lemma workerStep_Register:
  "i < length (runningThreads s) \<Longrightarrow> runningThreads s ! i = Joinable w \<Longrightarrow> pc w = Register \<Longrightarrow>
   workerStep i s =
     Inr ((set_worker i (w\<lparr>pc := LoopHead\<rparr>) s)
       \<lparr>threadsData :=
          map_insert (threadId w) \<lparr>killed = False, value = threadValue w\<rparr> (threadsData s),
        cout := cout s @ [Started (threadId w) (threadValue w)]\<rparr>)"
  by (simp add: workerStep_def)

lemma map_insert_present: "m k = Some d \<Longrightarrow> map_insert k v m = m"
  by (simp add: map_insert_def)

lemma map_insert_absent: "m k = None \<Longrightarrow> map_insert k v m = m(k \<mapsto> v)"
  by (simp add: map_insert_def)

lemma join_finish:
  assumes i: "i < length (runningThreads s)"
  shows "join i (finish i w s) =
     Some (Inr (s\<lparr>runningThreads := (runningThreads s)[i := NotJoinable],
                  cout := cout s @ [Finished (threadId w) (threadValue w)]\<rparr>))"
proof -
  have "join i (finish i w s) =
      Some (Inr ((finish i w s)\<lparr>runningThreads := (runningThreads (finish i w s))[i := NotJoinable]\<rparr>))"
    by (rule join_Exited [where w = "w\<lparr>pc := Exited\<rparr>"])
       (use i in \<open>simp_all add: finish_def set_worker_def\<close>)
  then show ?thesis by (simp add: finish_def set_worker_def)
qed

lemma join_killed_Tick:
  assumes i: "i < length (runningThreads s)" and w: "runningThreads s ! i = Joinable w"
    and pc: "pc w = Tick" and d: "threadsData s (threadId w) = Some d" and k: "killed d"
  shows "join i s =
     Some (Inr (s\<lparr>runningThreads := (runningThreads s)[i := NotJoinable],
                  cout := cout s @ [Finished (threadId w) (threadValue w)]\<rparr>))"
proof -
  have "workerStep i s = Inr (finish i w s)"
    using i w pc d k by (simp add: workerStep_Tick tick_killed)
  then have "join i s = join i (finish i w s)"
    using i w pc by (intro join_step [where w = w]) simp_all
  then show ?thesis using i by (simp add: join_finish)
qed

lemma join_killed_LoopHead:
  assumes i: "i < length (runningThreads s)" and w: "runningThreads s ! i = Joinable w"
    and pc: "pc w = LoopHead" and d: "threadsData s (threadId w) = Some d" and k: "killed d"
  shows "join i s =
     Some (Inr (s\<lparr>runningThreads := (runningThreads s)[i := NotJoinable],
                  cout := cout s @ [Finished (threadId w) (threadValue w)]\<rparr>))"
proof (cases "programFinished s")
  case True
  then have "workerStep i s = Inr (finish i w s)"
    using i w pc by (simp add: workerStep_LoopHead)
  then have "join i s = join i (finish i w s)"
    using i w pc by (intro join_step [where w = w]) simp_all
  then show ?thesis using i by (simp add: join_finish)
next
  case False
  let ?s = "set_worker i (w\<lparr>pc := Tick\<rparr>) s"
  have "workerStep i s = Inr ?s"
    using False i w pc by (simp add: workerStep_LoopHead)
  then have "join i s = join i ?s"
    using i w pc by (intro join_step [where w = w]) simp_all
  also have "\<dots> = Some (Inr (?s\<lparr>runningThreads := (runningThreads ?s)[i := NotJoinable],
      cout := cout ?s @ [Finished (threadId (w\<lparr>pc := Tick\<rparr>)) (threadValue (w\<lparr>pc := Tick\<rparr>))]\<rparr>))"
    by (rule join_killed_Tick [where d = d])
       (use i d k in \<open>simp_all add: set_worker_def\<close>)
  finally show ?thesis by (simp add: set_worker_def)
qed

lemma join_killed_Register:
  assumes i: "i < length (runningThreads s)" and w: "runningThreads s ! i = Joinable w"
    and pc: "pc w = Register" and d: "threadsData s (threadId w) = Some d" and k: "killed d"
  shows "join i s =
     Some (Inr (s\<lparr>runningThreads := (runningThreads s)[i := NotJoinable],
                  cout := cout s @ [Started (threadId w) (threadValue w),
                                    Finished (threadId w) (threadValue w)]\<rparr>))"
proof -
  let ?s = "(set_worker i (w\<lparr>pc := LoopHead\<rparr>) s)
       \<lparr>cout := cout s @ [Started (threadId w) (threadValue w)]\<rparr>"
  have "workerStep i s = Inr ?s"
    using i w pc d by (simp add: workerStep_Register map_insert_present set_worker_def)
  then have "join i s = join i ?s"
    using i w pc by (intro join_step [where w = w]) simp_all
  also have "\<dots> = Some (Inr (?s\<lparr>runningThreads := (runningThreads ?s)[i := NotJoinable],
      cout := cout ?s @ [Finished (threadId (w\<lparr>pc := LoopHead\<rparr>)) (threadValue (w\<lparr>pc := LoopHead\<rparr>))]\<rparr>))"
    by (rule join_killed_LoopHead [where d = d])
       (use i d k in \<open>simp_all add: set_worker_def\<close>)
  finally show ?thesis by (simp add: set_worker_def)
qed

text \<open>
  Once the record of a worker is killed, \<^verbatim>\<open>join\<close> on its handle returns: the worker
  reaches the test of \<^verbatim>\<open>killed\<close> (or that of \<^verbatim>\<open>programFinished\<close>) and exits without
  touching \<^verbatim>\<open>threadsData\<close>.
\<close>

lemma join_killed:
  assumes i: "i < length (runningThreads s)" and w: "runningThreads s ! i = Joinable w"
    and d: "threadsData s (threadId w) = Some d" and k: "killed d"
  shows "\<exists>out. join i s =
     Some (Inr (s\<lparr>runningThreads := (runningThreads s)[i := NotJoinable],
                  cout := cout s @ out\<rparr>))"
proof (cases "pc w")
  case Register
  from join_killed_Register [OF i w Register d k] show ?thesis by blast
next
  case LoopHead
  from join_killed_LoopHead [OF i w LoopHead d k] show ?thesis by blast
next
  case Tick
  from join_killed_Tick [OF i w Tick d k] show ?thesis by blast
next
  case Exited
  have "s\<lparr>runningThreads := (runningThreads s)[i := NotJoinable]\<rparr> =
        s\<lparr>runningThreads := (runningThreads s)[i := NotJoinable], cout := cout s @ []\<rparr>"
    by simp
  with join_Exited [OF i w Exited] show ?thesis by metis
qed

subsection \<open>\<^verbatim>\<open>printThreadsInfo\<close>\<close>

text \<open>
  When the loop of \<^verbatim>\<open>printThreadsInfo\<close> returns it has printed one line for each
  handle, in the order of the list, and every handle's id has a record; it throws exactly
  when some handle's id has none.
\<close>

lemma printLoop_Inr:
  "printLoop ths s = Inr s' \<Longrightarrow>
     s' = s\<lparr>cout := cout s @
             map (\<lambda>thread. Info (get_id thread) (value (the (threadsData s (get_id thread))))) ths\<rparr> \<and>
     (\<forall>thread\<in>set ths. threadsData s (get_id thread) \<noteq> None)"
proof (induction ths arbitrary: s)
  case Nil
  then show ?case by simp
next
  case (Cons th ths)
  from Cons.prems obtain d where d: "threadsData s (get_id th) = Some d"
    and rest: "printLoop ths (s\<lparr>cout := cout s @ [Info (get_id th) (value d)]\<rparr>) = Inr s'"
    by (auto simp: Let_def split: option.splits)
  from Cons.IH [OF rest] d show ?case by simp
qed

lemma printLoop_Inl:
  "printLoop ths s = Inl e \<Longrightarrow> e = OutOfRange \<and> (\<exists>thread\<in>set ths. threadsData s (get_id thread) = None)"
proof (induction ths arbitrary: s)
  case Nil
  then show ?case by simp
next
  case (Cons th ths)
  show ?case
  proof (cases "threadsData s (get_id th)")
    case None
    with Cons.prems show ?thesis by (simp add: Let_def)
  next
    case (Some d)
    with Cons.prems
    have "printLoop ths (s\<lparr>cout := cout s @ [Info (get_id th) (value d)]\<rparr>) = Inl e"
      by (simp add: Let_def)
    from Cons.IH [OF this] show ?thesis by simp
  qed
qed

subsection \<open>\<^verbatim>\<open>killThread\<close>\<close>

lemma killThread_unknown: "threadsData s t = None \<Longrightarrow> killThread t s = Some (Inr s)"
  by (simp add: killThread_def)

lemma erase_NotJoinable:
  "i < length ths \<Longrightarrow>
   erase i (ths[i := NotJoinable]) = Inr (take i ths @ drop (Suc i) ths)"
  by (simp add: erase_def)

lemma killThread_registered:
  assumes i: "i < length (runningThreads s)" and w: "runningThreads s ! i = Joinable w"
    and t: "threadId w = t"
    and u: "\<forall>j<length (runningThreads s). j \<noteq> i \<longrightarrow> get_id (runningThreads s ! j) \<noteq> t"
    and d: "threadsData s t = Some d"
  shows "\<exists>out. killThread t s =
     Some (Inr (s\<lparr>threadsData := (threadsData s)(t := None),
                  runningThreads := take i (runningThreads s) @ drop (Suc i) (runningThreads s),
                  cout := cout s @ out\<rparr>))"
proof -
  let ?s1 = "s\<lparr>threadsData := (threadsData s)(t \<mapsto> d\<lparr>killed := True\<rparr>)\<rparr>"
  have f: "find_if (\<lambda>thread. get_id thread = t) (runningThreads ?s1) = Some i"
    using i w t u by (intro find_if_unique) simp_all
  obtain out where j: "join i ?s1 =
      Some (Inr (?s1\<lparr>runningThreads := (runningThreads ?s1)[i := NotJoinable],
                     cout := cout ?s1 @ out\<rparr>))"
    using join_killed [of i ?s1 w "d\<lparr>killed := True\<rparr>"] i w t by auto
  have "killThread t s =
     Some (Inr (s\<lparr>threadsData := (threadsData s)(t := None),
                  runningThreads := take i (runningThreads s) @ drop (Suc i) (runningThreads s),
                  cout := cout s @ out\<rparr>))"
    using d f j i by (simp add: killThread_def erase_NotJoinable)
  then show ?thesis by blast
qed

subsection \<open>\<^verbatim>\<open>join\<close> once \<^verbatim>\<open>programFinished\<close> is set\<close>

lemma join_finished_LoopHead:
  assumes pf: "programFinished s"
    and i: "i < length (runningThreads s)" and w: "runningThreads s ! i = Joinable w"
    and pc: "pc w = LoopHead"
  shows "join i s =
     Some (Inr (s\<lparr>runningThreads := (runningThreads s)[i := NotJoinable],
                  cout := cout s @ [Finished (threadId w) (threadValue w)]\<rparr>))"
proof -
  have "workerStep i s = Inr (finish i w s)"
    using pf i w pc by (simp add: workerStep_LoopHead)
  then have "join i s = join i (finish i w s)"
    using i w pc by (intro join_step [where w = w]) simp_all
  then show ?thesis using i by (simp add: join_finish)
qed

lemma join_finished_Tick:
  assumes pf: "programFinished s"
    and i: "i < length (runningThreads s)" and w: "runningThreads s ! i = Joinable w"
    and pc: "pc w = Tick" and d: "threadsData s (threadId w) = Some d"
  shows "\<exists>s'. join i s = Some (Inr s') \<and> joined i s s'"
proof (cases "killed d")
  case True
  from join_killed_Tick [OF i w pc d True] show ?thesis
    by (simp add: joined_def)
next
  case False
  let ?w = "w\<lparr>pc := LoopHead, threadValue := value d + 1\<rparr>"
  let ?s = "(set_worker i ?w s)
      \<lparr>threadsData := (threadsData s)(threadId w \<mapsto> d\<lparr>value := value d + 1\<rparr>)\<rparr>"
  have "workerStep i s = Inr ?s"
    using i w pc d False by (simp add: workerStep_Tick tick_alive)
  then have "join i s = join i ?s"
    using i w pc by (intro join_step [where w = w]) simp_all
  also have "\<dots> = Some (Inr (?s\<lparr>runningThreads := (runningThreads ?s)[i := NotJoinable],
      cout := cout ?s @ [Finished (threadId ?w) (threadValue ?w)]\<rparr>))"
    by (rule join_finished_LoopHead) (use pf i in \<open>simp_all add: set_worker_def\<close>)
  finally show ?thesis
    using d by (simp add: joined_def set_worker_def)
qed

lemma join_finished_Register:
  assumes pf: "programFinished s"
    and i: "i < length (runningThreads s)" and w: "runningThreads s ! i = Joinable w"
    and pc: "pc w = Register"
  shows "\<exists>s'. join i s = Some (Inr s') \<and> joined i s s'"
proof -
  let ?w = "w\<lparr>pc := LoopHead\<rparr>"
  let ?m = "map_insert (threadId w) \<lparr>killed = False, value = threadValue w\<rparr> (threadsData s)"
  let ?s = "(set_worker i ?w s)
      \<lparr>threadsData := ?m, cout := cout s @ [Started (threadId w) (threadValue w)]\<rparr>"
  have "workerStep i s = Inr ?s"
    using i w pc by (simp add: workerStep_Register)
  then have "join i s = join i ?s"
    using i w pc by (intro join_step [where w = w]) simp_all
  also have "\<dots> = Some (Inr (?s\<lparr>runningThreads := (runningThreads ?s)[i := NotJoinable],
      cout := cout ?s @ [Finished (threadId ?w) (threadValue ?w)]\<rparr>))"
    by (rule join_finished_LoopHead) (use pf i in \<open>simp_all add: set_worker_def\<close>)
  finally have j: "join i s = Some (Inr (?s\<lparr>runningThreads := (runningThreads ?s)[i := NotJoinable],
      cout := cout ?s @ [Finished (threadId ?w) (threadValue ?w)]\<rparr>))" .
  have "\<forall>t d. threadsData s t = Some d \<longrightarrow> (\<exists>d'. ?m t = Some d' \<and> killed d' = killed d)"
    by (auto simp: map_insert_def split: option.splits)
  with j show ?thesis
    by (simp add: joined_def set_worker_def)
qed

lemma join_finished:
  assumes pf: "programFinished s"
    and i: "i < length (runningThreads s)" and w: "runningThreads s ! i = Joinable w"
    and d: "pc w = Tick \<longrightarrow> threadsData s (threadId w) \<noteq> None"
  shows "\<exists>s'. join i s = Some (Inr s') \<and> joined i s s'"
proof (cases "pc w")
  case Register
  from join_finished_Register [OF pf i w Register] show ?thesis .
next
  case LoopHead
  from join_finished_LoopHead [OF pf i w LoopHead] show ?thesis
    by (simp add: joined_def)
next
  case Tick
  with d obtain d' where "threadsData s (threadId w) = Some d'" by auto
  from join_finished_Tick [OF pf i w Tick this] show ?thesis .
next
  case Exited
  from join_Exited [OF i w Exited] show ?thesis
    by (simp add: joined_def)
qed

subsection \<open>\<^verbatim>\<open>stopRunningThreads\<close>\<close>

lemma ready_joined:
  assumes "joined i s s'" and "ready s thread"
  shows "ready s' thread"
proof (cases thread)
  case NotJoinable
  with assms(2) show ?thesis by (simp add: ready_def)
next
  case (Joinable w)
  show ?thesis
  proof (cases "pc w = Tick")
    case True
    with assms(2) Joinable obtain d where "threadsData s (threadId w) = Some d"
      by (auto simp: ready_def)
    with assms(1) obtain d' where "threadsData s' (threadId w) = Some d'"
      unfolding joined_def by blast
    with Joinable show ?thesis by (simp add: ready_def)
  next
    case False
    with Joinable show ?thesis by (simp add: ready_def)
  qed
qed

lemma joinLoop_finished:
  assumes "programFinished s" and "distinct js"
    and "\<forall>j\<in>set js. j < length (runningThreads s) \<and> ready s (runningThreads s ! j)"
  shows "\<exists>s'. joinLoop js s = Some (Inr s') \<and>
           programFinished s' \<and>
           length (runningThreads s') = length (runningThreads s) \<and>
           (\<forall>j\<in>set js. runningThreads s' ! j = NotJoinable) \<and>
           (\<forall>j. j \<notin> set js \<longrightarrow> runningThreads s' ! j = runningThreads s ! j) \<and>
           (\<forall>t d. threadsData s t = Some d \<longrightarrow>
              (\<exists>d'. threadsData s' t = Some d' \<and> killed d' = killed d))"
  using assms
proof (induction js arbitrary: s)
  case Nil
  then show ?case by simp
next
  case (Cons j js)
  from Cons.prems have j: "j < length (runningThreads s)" and r: "ready s (runningThreads s ! j)"
    by simp_all
  from r obtain w where w: "runningThreads s ! j = Joinable w"
    and d: "pc w = Tick \<longrightarrow> threadsData s (threadId w) \<noteq> None"
    by (cases "runningThreads s ! j") (auto simp: ready_def)
  from join_finished [OF Cons.prems(1) j w d]
  obtain s1 where s1: "join j s = Some (Inr s1)" and jd: "joined j s s1" by blast
  from jd have pf1: "programFinished s1" and ths1: "runningThreads s1 = (runningThreads s)[j := NotJoinable]"
    using Cons.prems(1) by (simp_all add: joined_def)
  have rest: "\<forall>k\<in>set js. k < length (runningThreads s1) \<and> ready s1 (runningThreads s1 ! k)"
  proof
    fix k assume k: "k \<in> set js"
    with Cons.prems have "k \<noteq> j" "k < length (runningThreads s)" "ready s (runningThreads s ! k)"
      by auto
    with ths1 ready_joined [OF jd] show "k < length (runningThreads s1) \<and> ready s1 (runningThreads s1 ! k)"
      by simp
  qed
  from Cons.prems(2) have "distinct js" by simp
  from Cons.IH [OF pf1 this rest]
  obtain s' where s': "joinLoop js s1 = Some (Inr s')" "programFinished s'"
    "length (runningThreads s') = length (runningThreads s1)"
    "\<forall>k\<in>set js. runningThreads s' ! k = NotJoinable"
    "\<forall>k. k \<notin> set js \<longrightarrow> runningThreads s' ! k = runningThreads s1 ! k"
    "\<forall>t d. threadsData s1 t = Some d \<longrightarrow> (\<exists>d'. threadsData s' t = Some d' \<and> killed d' = killed d)"
    by blast
  have "joinLoop (j # js) s = Some (Inr s')"
    using s1 s'(1) by simp
  moreover have "length (runningThreads s') = length (runningThreads s)"
    using s'(3) ths1 by simp
  moreover have "\<forall>k\<in>set (j # js). runningThreads s' ! k = NotJoinable"
  proof
    fix k assume "k \<in> set (j # js)"
    then consider "k \<in> set js" | "k = j" "k \<notin> set js" by auto
    then show "runningThreads s' ! k = NotJoinable"
    proof cases
      case 1
      with s'(4) show ?thesis by simp
    next
      case 2
      with s'(5) ths1 j show ?thesis by simp
    qed
  qed
  moreover have "\<forall>k. k \<notin> set (j # js) \<longrightarrow> runningThreads s' ! k = runningThreads s ! k"
    using s'(5) ths1 by simp
  moreover have "\<forall>t d. threadsData s t = Some d \<longrightarrow>
      (\<exists>d'. threadsData s' t = Some d' \<and> killed d' = killed d)"
  proof (intro allI impI)
    fix t d assume "threadsData s t = Some d"
    with jd obtain d1 where "threadsData s1 t = Some d1" "killed d1 = killed d"
      unfolding joined_def by blast
    with s'(6) show "\<exists>d'. threadsData s' t = Some d' \<and> killed d' = killed d"
      by fastforce
  qed
  ultimately show ?case using s'(2) by blast
qed

lemma parseCommand_stop: "parseCommand ''stop'' = (''stop'', [])"
  by (simp add: parseCommand_def isspace_def)

lemma invokeCommand_stop:
  "invokeCommand newId rnd ''stop'' s = stopRunningThreads (s\<lparr>programFinished := True\<rparr>)"
  by (simp add: invokeCommand_def parseCommand_stop)

lemma ready_programFinished [simp]: "ready (s\<lparr>programFinished := b\<rparr>) thread = ready s thread"
  by (simp add: ready_def split: thread.splits)

lemma stopRunningThreads_finished:
  assumes "programFinished s" and "\<forall>thread\<in>set (runningThreads s). ready s thread"
  shows "\<exists>s'. stopRunningThreads s = Some (Inr s') \<and>
           programFinished s' \<and>
           runningThreads s' = replicate (length (runningThreads s)) NotJoinable \<and>
           (\<forall>t d. threadsData s t = Some d \<longrightarrow>
              (\<exists>d'. threadsData s' t = Some d' \<and> killed d' = killed d))"
proof -
  let ?n = "length (runningThreads s)"
  have "\<forall>j\<in>set [0..<?n]. j < ?n \<and> ready s (runningThreads s ! j)"
    using assms(2) by simp
  from joinLoop_finished [OF assms(1) distinct_upt this]
  obtain s' where s': "joinLoop [0..<?n] s = Some (Inr s')" "programFinished s'"
    "length (runningThreads s') = ?n"
    "\<forall>j\<in>set [0..<?n]. runningThreads s' ! j = NotJoinable"
    "\<forall>t d. threadsData s t = Some d \<longrightarrow> (\<exists>d'. threadsData s' t = Some d' \<and> killed d' = killed d)"
    by blast
  have "runningThreads s' = replicate ?n NotJoinable"
  proof (rule nth_equalityI)
    show "length (runningThreads s') = length (replicate ?n NotJoinable)"
      using s'(3) by simp
  next
    fix j assume "j < length (runningThreads s')"
    with s'(3,4) show "runningThreads s' ! j = replicate ?n NotJoinable ! j"
      by simp
  qed
  with s' show ?thesis by (simp add: stopRunningThreads_def)
qed

text \<open>
  Claim C2, as the code has it. The \<^verbatim>\<open>stop\<close> command sets \<^verbatim>\<open>programFinished\<close> and
  joins every handle of \<^verbatim>\<open>runningThreads\<close>. When every handle is joinable and every
  worker that is about to look its record up has one, the command returns; then
  \<^verbatim>\<open>programFinished\<close> is set and every handle owns no thread any more (every worker has
  exited). Nothing is erased: \<^verbatim>\<open>runningThreads\<close> has as many handles as before, and
  every record of \<^verbatim>\<open>threadsData\<close> is still there, with its \<^verbatim>\<open>killed\<close> flag.
\<close>

theorem stop_joins_and_keeps:
  assumes "\<forall>thread\<in>set (runningThreads s). ready s thread"
  shows "\<exists>s'. invokeCommand newId rnd ''stop'' s = Some (Inr s') \<and>
           programFinished s' \<and>
           runningThreads s' = replicate (length (runningThreads s)) NotJoinable \<and>
           (\<forall>t d. threadsData s t = Some d \<longrightarrow>
              (\<exists>d'. threadsData s' t = Some d' \<and> killed d' = killed d))"
proof -
  let ?s = "s\<lparr>programFinished := True\<rparr>"
  have "programFinished ?s" by simp
  moreover have "\<forall>thread\<in>set (runningThreads ?s). ready ?s thread"
    using assms by simp
  ultimately show ?thesis
    using stopRunningThreads_finished [of ?s] by (simp add: invokeCommand_stop)
qed

theorem stop_joins_and_keeps_witness:
  "\<exists>s'. invokeCommand 0 0 ''stop''
       \<lparr>programFinished = False,
        runningThreads = [Joinable \<lparr>threadId = 7, pc = Tick, threadValue = 3\<rparr>,
                          Joinable \<lparr>threadId = 9, pc = Register, threadValue = 5\<rparr>],
        threadsData = [7 \<mapsto> \<lparr>killed = False, value = 3\<rparr>],
        cout = []\<rparr> = Some (Inr s') \<and>
      programFinished s' \<and>
      runningThreads s' = [NotJoinable, NotJoinable] \<and>
      (\<exists>d'. threadsData s' 7 = Some d' \<and> \<not> killed d')"
proof -
  let ?s = "\<lparr>programFinished = False,
        runningThreads = [Joinable \<lparr>threadId = 7, pc = Tick, threadValue = 3\<rparr>,
                          Joinable \<lparr>threadId = 9, pc = Register, threadValue = 5\<rparr>],
        threadsData = [7 \<mapsto> \<lparr>killed = False, value = 3\<rparr>],
        cout = []\<rparr>"
  have r: "\<forall>thread\<in>set (runningThreads ?s). ready ?s thread"
    by (simp add: ready_def)
  from stop_joins_and_keeps [OF r, of 0 0]
  obtain s' where s': "invokeCommand 0 0 ''stop'' ?s = Some (Inr s')" "programFinished s'"
    "runningThreads s' = replicate (length (runningThreads ?s)) NotJoinable"
    "\<forall>t d. threadsData ?s t = Some d \<longrightarrow> (\<exists>d'. threadsData s' t = Some d' \<and> killed d' = killed d)"
    by blast
  from s'(4) [rule_format, of 7 "\<lparr>killed = False, value = 3\<rparr>"]
  have "\<exists>d'. threadsData s' 7 = Some d' \<and> \<not> killed d'"
    by simp
  with s'(1,2,3) show ?thesis by (simp add: numeral_2_eq_2)
qed

text \<open>
  Claim C2 as stated fails: after \<^verbatim>\<open>stop\<close> with one worker in the pool, the list
  still holds its handle, \<^verbatim>\<open>threadsData\<close> still holds its record, and
  \<^verbatim>\<open>printThreadsInfo\<close> on that state throws at the id of the joined handle instead
  of printing nothing.
\<close>

theorem stop_clears_nothing:
  "invokeCommand 0 0 ''stop''
     \<lparr>programFinished = False,
      runningThreads = [Joinable \<lparr>threadId = 7, pc = LoopHead, threadValue = 3\<rparr>],
      threadsData = [7 \<mapsto> \<lparr>killed = False, value = 3\<rparr>],
      cout = []\<rparr> =
   Some (Inr
     \<lparr>programFinished = True,
      runningThreads = [NotJoinable],
      threadsData = [7 \<mapsto> \<lparr>killed = False, value = 3\<rparr>],
      cout = [Finished 7 3]\<rparr>) \<and>
   printThreadsInfo
     \<lparr>programFinished = True,
      runningThreads = [NotJoinable],
      threadsData = [7 \<mapsto> \<lparr>killed = False, value = 3\<rparr>],
      cout = [Finished 7 3]\<rparr> = Inl OutOfRange"
proof -
  let ?w = "\<lparr>threadId = 7, pc = LoopHead, threadValue = 3\<rparr> :: worker"
  let ?s = "\<lparr>programFinished = True, runningThreads = [Joinable ?w],
      threadsData = [7 \<mapsto> \<lparr>killed = False, value = 3\<rparr>], cout = []\<rparr>"
  have "join 0 ?s =
     Some (Inr (?s\<lparr>runningThreads := (runningThreads ?s)[0 := NotJoinable],
                  cout := cout ?s @ [Finished (threadId ?w) (threadValue ?w)]\<rparr>))"
    by (rule join_finished_LoopHead) simp_all
  then show ?thesis
    by (simp add: invokeCommand_stop stopRunningThreads_def printThreadsInfo_def)
qed

subsection \<open>\<^verbatim>\<open>printThreadsInfo\<close> and workers that have not registered\<close>

lemma printLoop_registered:
  "\<forall>thread\<in>set ths. threadsData s (get_id thread) \<noteq> None \<Longrightarrow>
   printLoop ths s =
     Inr (s\<lparr>cout := cout s @
            map (\<lambda>thread. Info (get_id thread) (value (the (threadsData s (get_id thread))))) ths\<rparr>)"
proof (induction ths arbitrary: s)
  case Nil
  then show ?case by simp
next
  case (Cons th ths)
  then obtain d where d: "threadsData s (get_id th) = Some d" by auto
  let ?s = "s\<lparr>cout := cout s @ [Info (get_id th) (value d)]\<rparr>"
  have "\<forall>thread\<in>set ths. threadsData ?s (get_id thread) \<noteq> None"
    using Cons.prems by simp
  from Cons.IH [OF this] d show ?case by (simp add: Let_def)
qed

lemma printLoop_unregistered:
  "\<exists>thread\<in>set ths. threadsData s (get_id thread) = None \<Longrightarrow> printLoop ths s = Inl OutOfRange"
proof (induction ths arbitrary: s)
  case Nil
  then show ?case by simp
next
  case (Cons th ths)
  show ?case
  proof (cases "threadsData s (get_id th)")
    case None
    then show ?thesis by (simp add: Let_def)
  next
    case (Some d)
    let ?s = "s\<lparr>cout := cout s @ [Info (get_id th) (value d)]\<rparr>"
    from Cons.prems Some have "\<exists>thread\<in>set ths. threadsData ?s (get_id thread) = None"
      by auto
    from Cons.IH [OF this] Some show ?thesis by (simp add: Let_def)
  qed
qed

text \<open>
  With a record for every handle, \<^verbatim>\<open>printThreadsInfo\<close> prints one line per handle, in
  the order of the list, with the handle's id and the value of its record.
\<close>

lemma printThreadsInfo_registered:
  "\<forall>thread\<in>set (runningThreads s). threadsData s (get_id thread) \<noteq> None \<Longrightarrow>
   printThreadsInfo s =
     Inr (s\<lparr>cout := cout s @
            map (\<lambda>thread. Info (get_id thread) (value (the (threadsData s (get_id thread)))))
              (runningThreads s)\<rparr>)"
  by (simp add: printThreadsInfo_def printLoop_registered)

lemma parseCommand_info: "parseCommand ''info'' = (''info'', [])"
  by (simp add: parseCommand_def isspace_def)

lemma invokeCommand_info: "invokeCommand newId rnd ''info'' s = Some (printThreadsInfo s)"
  by (simp add: invokeCommand_def parseCommand_info)

text \<open>
  Claim C4 at a failing input. The operator enters \<^verbatim>\<open>new 100\<close> and then \<^verbatim>\<open>info\<close>
  before the new thread has inserted its record: the handle is in \<^verbatim>\<open>runningThreads\<close>,
  its id has no record, and \<^verbatim>\<open>threadsData.at(id)\<close> throws \<^verbatim>\<open>std::out_of_range\<close>,
  which nothing catches; the process is terminated instead of the worker being left out
  of the listing.
\<close>

theorem info_throws_before_registration:
  "invokeCommand 7 0 ''new 100'' init =
     Some (Inr \<lparr>programFinished = False,
                runningThreads = [Joinable \<lparr>threadId = 7, pc = Register, threadValue = 100\<rparr>],
                threadsData = Map.empty, cout = []\<rparr>) \<and>
   invokeCommand 0 0 ''info''
     \<lparr>programFinished = False,
      runningThreads = [Joinable \<lparr>threadId = 7, pc = Register, threadValue = 100\<rparr>],
      threadsData = Map.empty, cout = []\<rparr> = Some (Inl OutOfRange) \<and>
   main 4 [''prog'', ''--threads'', ''0''] [Line ''new 100'' 7 0, Line ''info'' 0 0] =
     Some (Aborted OutOfRange)"
proof -
  let ?s1 = "\<lparr>programFinished = False,
      runningThreads = [Joinable \<lparr>threadId = 7, pc = Register, threadValue = 100\<rparr>],
      threadsData = Map.empty, cout = []\<rparr>"
  have p: "parseCommand ''new 100'' = (''new'', [''100''])"
    by (simp add: parseCommand_def isspace_def)
  have v: "stoi_at [''100''] 0 = Inr 100"
    by (simp add: stoi_at_def at_def stoi_def isspace_def isdigit_def digits_value_def)
  have new: "invokeCommand 7 0 ''new 100'' init = Some (Inr ?s1)"
    by (simp add: invokeCommand_def p v startNewThread_def initializeThreadValue_def init_def)
  have info: "invokeCommand 0 0 ''info'' ?s1 = Some (Inl OutOfRange)"
    by (simp add: invokeCommand_info printThreadsInfo_def)
  have cl: "parseCommandLine 4 [''prog'', ''--threads'', ''0''] = Inr (0, 1)"
    by (simp add: parseCommandLine_def convertArgumentToPositiveInteger_def
        stoi_def isspace_def isdigit_def digits_value_def)
  have pi: "parseCommand ''info'' = (''info'', [])"
    by (simp add: parseCommand_def isspace_def)
  have d1: "dispatch 7 0 ''new 100'' init = Some (Inr (Listening, ?s1))"
    by (simp add: dispatch_def p new)
  have d2: "dispatch 0 0 ''info'' ?s1 = Some (Inl OutOfRange)"
    by (simp add: dispatch_def pi info)
  have e1: "exec 0 (Line ''new 100'' 7 0) (Listening, NotStarted, init) =
      Some (Inr (Listening, NotStarted, ?s1))"
    by (simp add: exec_def d1) (simp add: init_def)
  have e2: "exec 0 (Line ''info'' 0 0) (Listening, NotStarted, ?s1) = Some (Inl OutOfRange)"
    by (simp add: exec_def d2)
  have "run 0 [Line ''new 100'' 7 0, Line ''info'' 0 0] (Listening, NotStarted, init) =
      Some (Inl OutOfRange)"
    by (simp add: e1 e2) (simp add: init_def)
  then have "main 4 [''prog'', ''--threads'', ''0''] [Line ''new 100'' 7 0, Line ''info'' 0 0] =
     Some (Aborted OutOfRange)"
    by (simp add: main_def cl)
  with new info show ?thesis by simp
qed

section \<open>Properties of the dispatcher\<close>

lemma say_frame [simp]:
  "programFinished (say m s) = programFinished s"
  "runningThreads (say m s) = runningThreads s"
  "threadsData (say m s) = threadsData s"
  "cout (say m s) = cout s @ [m]"
  by (simp_all add: say_def)

lemma invokeCommand_kill_usage:
  "parseCommand line = (''kill'', arguments) \<Longrightarrow> stoi_at arguments 0 = Inl e \<Longrightarrow>
   invokeCommand newId rnd line s = Some (Inr (say ProvideThreadId s))"
  by (simp add: invokeCommand_def)

lemma invokeCommand_kill:
  "parseCommand line = (''kill'', arguments) \<Longrightarrow> stoi_at arguments 0 = Inr v \<Longrightarrow>
   invokeCommand newId rnd line s = killThread (of_int v) s"
  by (simp add: invokeCommand_def)

lemma invokeCommand_reset_usage:
  "parseCommand line = (''reset'', arguments) \<Longrightarrow> stoi_at arguments 0 = Inl e \<Longrightarrow>
   invokeCommand newId rnd line s = Some (Inr (say ProvideThreadId s))"
  by (simp add: invokeCommand_def)

lemma invokeCommand_reset_default:
  "parseCommand line = (''reset'', arguments) \<Longrightarrow> stoi_at arguments 0 = Inr v \<Longrightarrow>
   stoi_at arguments 1 = Inl e \<Longrightarrow>
   invokeCommand newId rnd line s = Some (Inr (resetThread (of_int v) 0 s))"
  by (simp add: invokeCommand_def)

lemma invokeCommand_reset:
  "parseCommand line = (''reset'', arguments) \<Longrightarrow> stoi_at arguments 0 = Inr v \<Longrightarrow>
   stoi_at arguments 1 = Inr n \<Longrightarrow>
   invokeCommand newId rnd line s = Some (Inr (resetThread (of_int v) (of_int n) s))"
  by (simp add: invokeCommand_def)

lemma invokeCommand_new_random:
  "parseCommand line = (''new'', arguments) \<Longrightarrow> stoi_at arguments 0 = Inl e \<Longrightarrow>
   invokeCommand newId rnd line s = Some (Inr (startNewThread newId rnd None s))"
  by (simp add: invokeCommand_def)

lemma invokeCommand_new:
  "parseCommand line = (''new'', arguments) \<Longrightarrow> stoi_at arguments 0 = Inr v \<Longrightarrow>
   invokeCommand newId rnd line s = Some (Inr (startNewThread newId rnd (Some (of_int v)) s))"
  by (simp add: invokeCommand_def)

lemma invokeCommand_unknown:
  "parseCommand line = (command, arguments) \<Longrightarrow>
   command \<noteq> ''info'' \<Longrightarrow> command \<noteq> ''new'' \<Longrightarrow> command \<noteq> ''kill'' \<Longrightarrow>
   command \<noteq> ''reset'' \<Longrightarrow> command \<noteq> ''stop'' \<Longrightarrow>
   invokeCommand newId rnd line s = Some (Inr (say UnknownCommand s))"
  by (simp add: invokeCommand_def)

lemma stoi_at_missing: "length arguments \<le> n \<Longrightarrow> stoi_at arguments n = Inl OutOfRange"
  by (simp add: stoi_at_def at_def)

text \<open>A token that does not begin with a digit or a sign is not a number for \<^verbatim>\<open>std::stoi\<close>.\<close>

lemma stoi_no_digit:
  assumes "a = [] \<or> \<not> isdigit (hd a) \<and> \<not> isspace (hd a) \<and> hd a \<noteq> CHR ''-'' \<and> hd a \<noteq> CHR ''+''"
  shows "stoi a = Inl InvalidArgument"
proof (cases a)
  case Nil
  then show ?thesis by (simp add: stoi_def)
next
  case (Cons c cs)
  with assms show ?thesis by (simp add: stoi_def)
qed

text \<open>
  Claim C9, as the code has it. For a line whose command is \<^verbatim>\<open>kill\<close> or \<^verbatim>\<open>reset\<close>
  and whose first argument is missing or not accepted by \<^verbatim>\<open>std::stoi\<close>, the dispatcher
  prints the request for a thread id and changes nothing else. A \<^verbatim>\<open>reset\<close> with an
  accepted id whose second argument is missing or not accepted is not reported: it calls
  \<^verbatim>\<open>resetThread\<close> with the value 0. A \<^verbatim>\<open>new\<close> whose argument is missing or not
  accepted starts a thread without an initial value, whose value is then what
  \<^verbatim>\<open>std::rand()\<close> returns. Any other command name than the five prints
  \<^verbatim>\<open>Unknown command.\<close> and changes nothing else. A token that begins with neither
  a digit, a sign nor white space is not accepted.
\<close>

theorem invokeCommand_bad_arguments:
  assumes "parseCommand line = (command, arguments)"
  shows "((command = ''kill'' \<or> command = ''reset'') \<and>
            (arguments = [] \<or> (\<exists>e. stoi (arguments ! 0) = Inl e)) \<longrightarrow>
            invokeCommand newId rnd line s = Some (Inr (say ProvideThreadId s))) \<and>
         (\<forall>v. command = ''reset'' \<and> arguments \<noteq> [] \<and> stoi (arguments ! 0) = Inr v \<and>
            (length arguments \<le> 1 \<or> (\<exists>e. stoi (arguments ! 1) = Inl e)) \<longrightarrow>
            invokeCommand newId rnd line s = Some (Inr (resetThread (of_int v) 0 s))) \<and>
         (command = ''new'' \<and> (arguments = [] \<or> (\<exists>e. stoi (arguments ! 0) = Inl e)) \<longrightarrow>
            invokeCommand newId rnd line s = Some (Inr (startNewThread newId rnd None s)) \<and>
            runningThreads (startNewThread newId rnd None s) =
              runningThreads s @
                [Joinable \<lparr>threadId = newId, pc = Register, threadValue = of_int rnd\<rparr>]) \<and>
         (command \<notin> {''info'', ''new'', ''kill'', ''reset'', ''stop''} \<longrightarrow>
            invokeCommand newId rnd line s = Some (Inr (say UnknownCommand s))) \<and>
         (\<forall>m. cout (say m s) = cout s @ [m] \<and> runningThreads (say m s) = runningThreads s \<and>
            threadsData (say m s) = threadsData s \<and>
            programFinished (say m s) = programFinished s) \<and>
         (\<forall>a. a = [] \<or>
              \<not> isdigit (hd a) \<and> \<not> isspace (hd a) \<and> hd a \<noteq> CHR ''-'' \<and> hd a \<noteq> CHR ''+'' \<longrightarrow>
            stoi a = Inl InvalidArgument)"
proof (intro conjI impI allI)
  assume a: "(command = ''kill'' \<or> command = ''reset'') \<and>
      (arguments = [] \<or> (\<exists>e. stoi (arguments ! 0) = Inl e))"
  then obtain e where "stoi_at arguments 0 = Inl e"
    by (cases arguments) (auto simp: stoi_at_def at_def)
  with a assms show "invokeCommand newId rnd line s = Some (Inr (say ProvideThreadId s))"
    by (auto simp: invokeCommand_kill_usage invokeCommand_reset_usage)
next
  fix v
  assume a: "command = ''reset'' \<and> arguments \<noteq> [] \<and> stoi (arguments ! 0) = Inr v \<and>
      (length arguments \<le> 1 \<or> (\<exists>e. stoi (arguments ! 1) = Inl e))"
  then have v: "stoi_at arguments 0 = Inr v"
    by (simp add: stoi_at_def at_def)
  have "\<exists>e. stoi_at arguments 1 = Inl e"
  proof (cases "length arguments \<le> 1")
    case True
    then show ?thesis by (simp add: stoi_at_def at_def)
  next
    case False
    with a obtain e where "stoi (arguments ! 1) = Inl e" by blast
    with False show ?thesis by (simp add: stoi_at_def at_def)
  qed
  then obtain e where "stoi_at arguments 1 = Inl e" ..
  with a v assms show "invokeCommand newId rnd line s = Some (Inr (resetThread (of_int v) 0 s))"
    by (simp add: invokeCommand_reset_default)
next
  assume a: "command = ''new'' \<and> (arguments = [] \<or> (\<exists>e. stoi (arguments ! 0) = Inl e))"
  then obtain e where "stoi_at arguments 0 = Inl e"
    by (cases arguments) (auto simp: stoi_at_def at_def)
  with a assms show "invokeCommand newId rnd line s = Some (Inr (startNewThread newId rnd None s))"
    by (simp add: invokeCommand_new_random)
next
  show "runningThreads (startNewThread newId rnd None s) =
      runningThreads s @ [Joinable \<lparr>threadId = newId, pc = Register, threadValue = of_int rnd\<rparr>]"
    by (simp add: startNewThread_def initializeThreadValue_def)
next
  assume "command \<notin> {''info'', ''new'', ''kill'', ''reset'', ''stop''}"
  with assms show "invokeCommand newId rnd line s = Some (Inr (say UnknownCommand s))"
    by (simp add: invokeCommand_unknown)
next
  fix a :: string
  assume "a = [] \<or>
      \<not> isdigit (hd a) \<and> \<not> isspace (hd a) \<and> hd a \<noteq> CHR ''-'' \<and> hd a \<noteq> CHR ''+''"
  then show "stoi a = Inl InvalidArgument" by (rule stoi_no_digit)
qed simp_all

theorem invokeCommand_bad_arguments_witness:
  "invokeCommand 0 0 ''kill abc'' init = Some (Inr (say ProvideThreadId init)) \<and>
   invokeCommand 0 0 ''reset'' init = Some (Inr (say ProvideThreadId init)) \<and>
   invokeCommand 9 42 ''new x1'' init = Some (Inr (startNewThread 9 42 None init)) \<and>
   invokeCommand 0 0 ''start'' init = Some (Inr (say UnknownCommand init))"
proof -
  have k: "parseCommand ''kill abc'' = (''kill'', [''abc''])"
    and r: "parseCommand ''reset'' = (''reset'', [])"
    and n: "parseCommand ''new x1'' = (''new'', [''x1''])"
    and u: "parseCommand ''start'' = (''start'', [])"
    by (simp_all add: parseCommand_def isspace_def)
  have abc: "stoi ''abc'' = Inl InvalidArgument" and x1: "stoi ''x1'' = Inl InvalidArgument"
    by (simp_all add: stoi_def isspace_def isdigit_def)
  show ?thesis
    using invokeCommand_bad_arguments [OF k, of 0 0 init]
      invokeCommand_bad_arguments [OF r, of 0 0 init]
      invokeCommand_bad_arguments [OF n, of 9 42 init]
      invokeCommand_bad_arguments [OF u, of 0 0 init] abc x1
    by simp
qed

text \<open>
  Claim C9 as stated fails for a \<^verbatim>\<open>reset\<close> whose value argument is malformed: the
  line \<^verbatim>\<open>reset 7 abc\<close> is not reported and overwrites the value of worker 7 by 0.
\<close>

theorem reset_malformed_value_stores_zero:
  "invokeCommand 0 0 ''reset 7 abc''
     \<lparr>programFinished = False,
      runningThreads = [Joinable \<lparr>threadId = 7, pc = LoopHead, threadValue = 3\<rparr>],
      threadsData = [7 \<mapsto> \<lparr>killed = False, value = 3\<rparr>],
      cout = []\<rparr> =
   Some (Inr
     \<lparr>programFinished = False,
      runningThreads = [Joinable \<lparr>threadId = 7, pc = LoopHead, threadValue = 3\<rparr>],
      threadsData = [7 \<mapsto> \<lparr>killed = False, value = 0\<rparr>],
      cout = [NewValue 7 0]\<rparr>)"
proof -
  have p: "parseCommand ''reset 7 abc'' = (''reset'', [''7'', ''abc''])"
    by (simp add: parseCommand_def isspace_def)
  have a: "stoi_at [''7'', ''abc''] 0 = Inr 7"
    by (simp add: stoi_at_def at_def stoi_def isspace_def isdigit_def digits_value_def)
  have b: "stoi_at [''7'', ''abc''] 1 = Inl InvalidArgument"
    by (simp add: stoi_at_def at_def stoi_def isspace_def isdigit_def)
  show ?thesis
    by (simp add: invokeCommand_reset_default [OF p a b] resetThread_def)
qed

subsection \<open>\<^verbatim>\<open>std::stoi\<close> on decimal literals\<close>











section \<open>What one step of the process does to records and handles\<close>

lemma workerStep_Inr:
  assumes "workerStep i s = Inr s'"
  shows "s' = s \<or>
    (\<exists>w w'. i < length (runningThreads s) \<and> runningThreads s ! i = Joinable w \<and>
       pc w \<noteq> Exited \<and>
       runningThreads s' = (runningThreads s)[i := Joinable w'] \<and>
       threadId w' = threadId w \<and> programFinished s' = programFinished s \<and>
       (pc w = Register \<and> pc w' = LoopHead \<and>
          threadsData s' =
            map_insert (threadId w) \<lparr>killed = False, value = threadValue w\<rparr> (threadsData s)
        \<or> pc w = LoopHead \<and> (pc w' = Tick \<or> pc w' = Exited) \<and> threadsData s' = threadsData s
        \<or> pc w = Tick \<and> pc w' = Exited \<and> threadsData s' = threadsData s \<and>
          (\<exists>d. threadsData s (threadId w) = Some d \<and> killed d)
        \<or> pc w = Tick \<and> pc w' = LoopHead \<and>
          (\<exists>d. threadsData s (threadId w) = Some d \<and> \<not> killed d \<and>
             threadsData s' = (threadsData s)(threadId w \<mapsto> d\<lparr>value := value d + 1\<rparr>))))"
proof (cases "i < length (runningThreads s)")
  case False
  with assms show ?thesis by (simp add: workerStep_def)
next
  case i: True
  show ?thesis
  proof (cases "runningThreads s ! i")
    case NotJoinable
    with assms i show ?thesis by (simp add: workerStep_def)
  next
    case (Joinable w)
    show ?thesis
    proof (cases "pc w")
      case Register
      from assms show ?thesis
        unfolding workerStep_Register [OF i Joinable Register]
        using i Joinable Register
        by (intro disjI2 exI [of _ w] exI [of _ "w\<lparr>pc := LoopHead\<rparr>"])
           (auto simp: set_worker_def)
    next
      case LoopHead
      show ?thesis
      proof (cases "programFinished s")
        case True
        with assms have "s' = finish i w s"
          by (simp add: workerStep_LoopHead [OF i Joinable LoopHead])
        with i Joinable LoopHead show ?thesis
          by (intro disjI2 exI [of _ w] exI [of _ "w\<lparr>pc := Exited\<rparr>"])
             (simp add: finish_def set_worker_def)
      next
        case False
        with assms have "s' = set_worker i (w\<lparr>pc := Tick\<rparr>) s"
          by (simp add: workerStep_LoopHead [OF i Joinable LoopHead])
        with i Joinable LoopHead show ?thesis
          by (intro disjI2 exI [of _ w] exI [of _ "w\<lparr>pc := Tick\<rparr>"])
             (simp add: set_worker_def)
      qed
    next
      case Tick
      from assms obtain d where d: "threadsData s (threadId w) = Some d"
        by (cases "threadsData s (threadId w)")
           (auto simp: workerStep_Tick [OF i Joinable Tick] tick_missing)
      show ?thesis
      proof (cases "killed d")
        case True
        with assms d have "s' = finish i w s"
          by (simp add: workerStep_Tick [OF i Joinable Tick] tick_killed)
        with i Joinable Tick d True show ?thesis
          by (intro disjI2 exI [of _ w] exI [of _ "w\<lparr>pc := Exited\<rparr>"])
             (simp add: finish_def set_worker_def)
      next
        case False
        with assms d
        have "s' = (set_worker i (w\<lparr>pc := LoopHead, threadValue := value d + 1\<rparr>) s)
            \<lparr>threadsData := (threadsData s)(threadId w \<mapsto> d\<lparr>value := value d + 1\<rparr>)\<rparr>"
          by (simp add: workerStep_Tick [OF i Joinable Tick] tick_alive)
        with i Joinable Tick d False show ?thesis
          by (intro disjI2 exI [of _ w]
                exI [of _ "w\<lparr>pc := LoopHead, threadValue := value d + 1\<rparr>"])
             (simp add: set_worker_def)
      qed
    next
      case Exited
      with assms i Joinable show ?thesis by (simp add: workerStep_def)
    qed
  qed
qed

lemma flags_kept_refl: "flags_kept s s"
  by (simp add: flags_kept_def)

lemma flags_kept_trans:
  assumes "flags_kept s s1" and "flags_kept s1 s2"
  shows "flags_kept s s2"
  unfolding flags_kept_def
proof (intro conjI allI impI)
  fix t d assume "threadsData s t = Some d"
  with assms(1) obtain d1 where "threadsData s1 t = Some d1" "killed d1 = killed d"
    unfolding flags_kept_def by blast
  with assms(2) show "\<exists>d'. threadsData s2 t = Some d' \<and> killed d' = killed d"
    unfolding flags_kept_def by fastforce
next
  fix t d' assume n: "threadsData s t = None" and s2: "threadsData s2 t = Some d'"
  show "\<not> killed d'"
  proof (cases "threadsData s1 t")
    case None
    with assms(2) s2 show ?thesis unfolding flags_kept_def by blast
  next
    case (Some d1)
    with assms(1) n have "\<not> killed d1" unfolding flags_kept_def by blast
    moreover from assms(2) Some s2 have "killed d' = killed d1"
      unfolding flags_kept_def by fastforce
    ultimately show ?thesis by simp
  qed
qed

lemma flags_kept_same: "threadsData s' = threadsData s \<Longrightarrow> flags_kept s s'"
  by (simp add: flags_kept_def)

lemma workerStep_flags_kept:
  assumes "workerStep i s = Inr s'"
  shows "flags_kept s s'"
  using workerStep_Inr [OF assms]
  by (elim disjE exE conjE)
     (auto simp: flags_kept_def map_insert_def split: option.splits)

lemma workerStep_handles:
  assumes "workerStep i s = Inr s'"
  shows "programFinished s' = programFinished s \<and>
         (\<exists>th. runningThreads s' = (runningThreads s)[i := th])"
proof -
  from workerStep_Inr [OF assms] consider "s' = s"
    | w' where "runningThreads s' = (runningThreads s)[i := Joinable w']"
        "programFinished s' = programFinished s"
    by blast
  then show ?thesis
  proof cases
    case 1
    have "runningThreads s = (runningThreads s)[i := runningThreads s ! i]" by simp
    with 1 show ?thesis by blast
  next
    case 2
    then show ?thesis by blast
  qed
qed

text \<open>
  A step of a worker changes no handle but its own and no record but that of its own id;
  this is why \<^verbatim>\<open>join\<close> can leave the steps of the other workers out.
\<close>

lemma workerStep_other:
  assumes step: "workerStep j s = Inr s'" and ij: "i \<noteq> j"
    and t: "\<forall>v. j < length (runningThreads s) \<and> runningThreads s ! j = Joinable v \<longrightarrow> threadId v \<noteq> t"
  shows "runningThreads s' ! i = runningThreads s ! i \<and> threadsData s' t = threadsData s t \<and>
         programFinished s' = programFinished s"
proof (cases "s' = s")
  case True
  then show ?thesis by simp
next
  case False
  with workerStep_Inr [OF step] obtain w w' where
    j: "j < length (runningThreads s)" and w: "runningThreads s ! j = Joinable w"
    and u: "runningThreads s' = (runningThreads s)[j := Joinable w']"
    and pf: "programFinished s' = programFinished s"
    and c: "threadsData s' =
            map_insert (threadId w) \<lparr>killed = False, value = threadValue w\<rparr> (threadsData s)
        \<or> threadsData s' = threadsData s
        \<or> (\<exists>d. threadsData s' = (threadsData s)(threadId w \<mapsto> d))"
    by blast
  from t j w have "threadId w \<noteq> t" by blast
  with c have "threadsData s' t = threadsData s t"
    by (auto simp: map_insert_def split: option.splits)
  with u ij pf show ?thesis by simp
qed

text \<open>
  Whenever \<^verbatim>\<open>join\<close> returns, under any flags: the joined handle owns nothing, the other
  handles and \<^verbatim>\<open>programFinished\<close> are what they were, and the \<^verbatim>\<open>killed\<close> flags are
  kept.
\<close>

lemma join_returns_aux:
  assumes "join i s = Some y"
  shows "\<forall>s'. y = Inr s' \<longrightarrow>
     i < length (runningThreads s) \<and>
     programFinished s' = programFinished s \<and>
     runningThreads s' = (runningThreads s)[i := NotJoinable] \<and> flags_kept s s'"
proof (rule join.raw_induct [where P = "\<lambda>i s y. \<forall>s'. y = Inr s' \<longrightarrow>
     i < length (runningThreads s) \<and>
     programFinished s' = programFinished s \<and>
     runningThreads s' = (runningThreads s)[i := NotJoinable] \<and> flags_kept s s'", OF _ assms])
  fix join' :: "nat \<Rightarrow> state \<Rightarrow> (error + state) option" and i s y
  assume IH: "\<And>i s y. join' i s = Some y \<Longrightarrow> \<forall>s'. y = Inr s' \<longrightarrow>
     i < length (runningThreads s) \<and>
     programFinished s' = programFinished s \<and>
     runningThreads s' = (runningThreads s)[i := NotJoinable] \<and> flags_kept s s'"
  assume body: "(if length (runningThreads s) \<le> i then Some (Inl UndefinedBehaviour)
      else case runningThreads s ! i of
        Joinable w \<Rightarrow>
          if pc w = Exited
          then Some (Inr (s\<lparr>runningThreads := (runningThreads s)[i := NotJoinable]\<rparr>))
          else (case workerStep i s of
                  Inl e \<Rightarrow> Some (Inl e)
                | Inr s' \<Rightarrow> join' i s')
      | NotJoinable \<Rightarrow> Some (Inl SystemError)) = Some y"
  show "\<forall>s'. y = Inr s' \<longrightarrow>
     i < length (runningThreads s) \<and>
     programFinished s' = programFinished s \<and>
     runningThreads s' = (runningThreads s)[i := NotJoinable] \<and> flags_kept s s'"
  proof (intro allI impI)
    fix s' assume y: "y = Inr s'"
    from body y have i: "i < length (runningThreads s)"
      by (auto split: if_splits)
    from body y i obtain w where w: "runningThreads s ! i = Joinable w"
      by (cases "runningThreads s ! i") auto
    show "i < length (runningThreads s) \<and> programFinished s' = programFinished s \<and>
        runningThreads s' = (runningThreads s)[i := NotJoinable] \<and> flags_kept s s'"
    proof (cases "pc w = Exited")
      case True
      with body y i w have "s' = s\<lparr>runningThreads := (runningThreads s)[i := NotJoinable]\<rparr>"
        by simp
      with i show ?thesis by (simp add: flags_kept_same)
    next
      case False
      with body y i w obtain s1 where s1: "workerStep i s = Inr s1"
        and j: "join' i s1 = Some (Inr s')"
        by (cases "workerStep i s") auto
      from IH [OF j]
      have r: "programFinished s' = programFinished s1"
        "runningThreads s' = (runningThreads s1)[i := NotJoinable]" "flags_kept s1 s'"
        by simp_all
      from workerStep_handles [OF s1] obtain th where
        h: "programFinished s1 = programFinished s" "runningThreads s1 = (runningThreads s)[i := th]"
        by blast
      from r h i flags_kept_trans [OF workerStep_flags_kept [OF s1] r(3)]
      show ?thesis by simp
    qed
  qed
qed

lemma join_returns:
  "join i s = Some (Inr s') \<Longrightarrow>
     i < length (runningThreads s) \<and>
     programFinished s' = programFinished s \<and>
     runningThreads s' = (runningThreads s)[i := NotJoinable] \<and> flags_kept s s'"
  using join_returns_aux [of i s "Inr s'"] by simp

lemma joinLoop_returns:
  "joinLoop js s = Some (Inr s') \<Longrightarrow>
     programFinished s' = programFinished s \<and>
     length (runningThreads s') = length (runningThreads s) \<and>
     (\<forall>j\<in>set js. j < length (runningThreads s) \<and> runningThreads s' ! j = NotJoinable) \<and>
     (\<forall>j. j \<notin> set js \<longrightarrow> runningThreads s' ! j = runningThreads s ! j) \<and>
     flags_kept s s'"
proof (induction js arbitrary: s)
  case Nil
  then show ?case by (simp add: flags_kept_refl)
next
  case (Cons j js)
  from Cons.prems obtain s1 where s1: "join j s = Some (Inr s1)" and l: "joinLoop js s1 = Some (Inr s')"
    by (auto split: option.splits sum.splits)
  from join_returns [OF s1]
  have a: "j < length (runningThreads s)" "programFinished s1 = programFinished s"
    "runningThreads s1 = (runningThreads s)[j := NotJoinable]" "flags_kept s s1"
    by simp_all
  from Cons.IH [OF l]
  have b: "programFinished s' = programFinished s1"
    "length (runningThreads s') = length (runningThreads s1)"
    "\<forall>k\<in>set js. k < length (runningThreads s1) \<and> runningThreads s' ! k = NotJoinable"
    "\<forall>k. k \<notin> set js \<longrightarrow> runningThreads s' ! k = runningThreads s1 ! k"
    "flags_kept s1 s'"
    by simp_all
  have "\<forall>k\<in>set (j # js). k < length (runningThreads s) \<and> runningThreads s' ! k = NotJoinable"
  proof
    fix k assume "k \<in> set (j # js)"
    then consider "k \<in> set js" | "k = j" "k \<notin> set js" by auto
    then show "k < length (runningThreads s) \<and> runningThreads s' ! k = NotJoinable"
    proof cases
      case 1
      with b(3) a(3) show ?thesis by simp
    next
      case 2
      with b(4) a(1,3) show ?thesis by simp
    qed
  qed
  moreover have "\<forall>k. k \<notin> set (j # js) \<longrightarrow> runningThreads s' ! k = runningThreads s ! k"
    using b(4) a(3) by simp
  ultimately show ?case
    using a b flags_kept_trans [OF a(4) b(5)] by simp
qed

lemma stopRunningThreads_returns:
  assumes "stopRunningThreads s = Some (Inr s')"
  shows "programFinished s' = programFinished s \<and>
         runningThreads s' = replicate (length (runningThreads s)) NotJoinable \<and>
         flags_kept s s'"
proof -
  let ?n = "length (runningThreads s)"
  from assms have "joinLoop [0..<?n] s = Some (Inr s')"
    by (simp add: stopRunningThreads_def)
  from joinLoop_returns [OF this]
  have r: "programFinished s' = programFinished s" "length (runningThreads s') = ?n"
    "\<forall>j\<in>set [0..<?n]. runningThreads s' ! j = NotJoinable" "flags_kept s s'"
    by simp_all
  have "runningThreads s' = replicate ?n NotJoinable"
  proof (rule nth_equalityI)
    show "length (runningThreads s') = length (replicate ?n NotJoinable)"
      using r(2) by simp
  next
    fix j assume "j < length (runningThreads s')"
    with r(2,3) show "runningThreads s' ! j = replicate ?n NotJoinable ! j"
      by simp
  qed
  with r show ?thesis by simp
qed

lemma join_NotJoinable:
  "i < length (runningThreads s) \<Longrightarrow> runningThreads s ! i = NotJoinable \<Longrightarrow>
   join i s = Some (Inl SystemError)"
  by (subst join.simps) simp

text \<open>
  When \<^verbatim>\<open>killThread\<close> returns, either the id had no record and nothing has changed, or
  the first handle with the id was joinable and the id's record and that handle are gone.
\<close>

lemma killThread_Inr:
  assumes "killThread t s = Some (Inr s')"
  shows "threadsData s t = None \<and> s' = s \<or>
    (\<exists>i w d out. threadsData s t = Some d \<and> i < length (runningThreads s) \<and>
       runningThreads s ! i = Joinable w \<and> threadId w = t \<and>
       s' = s\<lparr>threadsData := (threadsData s)(t := None),
              runningThreads := take i (runningThreads s) @ drop (Suc i) (runningThreads s),
              cout := cout s @ out\<rparr>)"
proof (cases "threadsData s t")
  case None
  with assms show ?thesis by (simp add: killThread_def)
next
  case (Some d)
  let ?s1 = "s\<lparr>threadsData := (threadsData s)(t \<mapsto> d\<lparr>killed := True\<rparr>)\<rparr>"
  from assms Some obtain i where f: "find_if (\<lambda>thread. get_id thread = t) (runningThreads s) = Some i"
    by (cases "find_if (\<lambda>thread. get_id thread = t) (runningThreads s)")
       (auto simp: killThread_def)
  from find_if_Some [OF f] have i: "i < length (runningThreads s)"
    and g: "get_id (runningThreads s ! i) = t" by simp_all
  show ?thesis
  proof (cases "runningThreads s ! i")
    case NotJoinable
    then have "join i ?s1 = Some (Inl SystemError)"
      using i by (intro join_NotJoinable) simp_all
    with assms Some f show ?thesis by (simp add: killThread_def)
  next
    case (Joinable w)
    with g have t: "threadId w = t" by simp
    obtain out where j: "join i ?s1 =
        Some (Inr (?s1\<lparr>runningThreads := (runningThreads ?s1)[i := NotJoinable],
                       cout := cout ?s1 @ out\<rparr>))"
      using join_killed [of i ?s1 w "d\<lparr>killed := True\<rparr>"] i Joinable t by auto
    have "killThread t s =
        Some (Inr (s\<lparr>threadsData := (threadsData s)(t := None),
              runningThreads := take i (runningThreads s) @ drop (Suc i) (runningThreads s),
              cout := cout s @ out\<rparr>))"
      using Some f j i by (simp add: killThread_def erase_NotJoinable)
    with assms
    have "s' = s\<lparr>threadsData := (threadsData s)(t := None),
              runningThreads := take i (runningThreads s) @ drop (Suc i) (runningThreads s),
              cout := cout s @ out\<rparr>"
      by simp
    with Some i Joinable t show ?thesis by blast
  qed
qed

lemma resetThread_fields:
  "runningThreads (resetThread t v s) = runningThreads s"
  "programFinished (resetThread t v s) = programFinished s"
  "threadsData (resetThread t v s) =
     (case threadsData s t of
        None \<Rightarrow> threadsData s
      | Some d \<Rightarrow> (threadsData s)(t \<mapsto> d\<lparr>value := v\<rparr>))"
  by (simp_all add: resetThread_def split: option.splits)

lemma startNewThread_fields:
  "runningThreads (startNewThread newId rnd v s) =
     runningThreads s @
       [Joinable \<lparr>threadId = newId, pc = Register, threadValue = initializeThreadValue rnd v\<rparr>]"
  "programFinished (startNewThread newId rnd v s) = programFinished s"
  "threadsData (startNewThread newId rnd v s) = threadsData s"
  by (simp_all add: startNewThread_def)

lemma printThreadsInfo_fields:
  assumes "printThreadsInfo s = Inr s'"
  shows "runningThreads s' = runningThreads s" and "programFinished s' = programFinished s"
    and "threadsData s' = threadsData s"
  using printLoop_Inr [of "runningThreads s" s s'] assms
  by (simp_all add: printThreadsInfo_def)

text \<open>The six ways in which \<^verbatim>\<open>invokeCommand\<close> can return.\<close>

lemma invokeCommand_Inr:
  assumes "invokeCommand newId rnd line s = Some (Inr s')"
  shows "printThreadsInfo s = Inr s' \<or>
         (\<exists>v. s' = startNewThread newId rnd v s) \<or>
         (\<exists>m. s' = say m s) \<or>
         (\<exists>t. killThread t s = Some (Inr s')) \<or>
         (\<exists>t v. s' = resetThread t v s) \<or>
         stopRunningThreads (s\<lparr>programFinished := True\<rparr>) = Some (Inr s')"
proof -
  obtain command arguments where p: "parseCommand line = (command, arguments)"
    by (cases "parseCommand line")
  consider "command = ''info''" | "command = ''new''" | "command = ''kill''"
    | "command = ''reset''" | "command = ''stop''"
    | "command \<noteq> ''info''" "command \<noteq> ''new''" "command \<noteq> ''kill''"
      "command \<noteq> ''reset''" "command \<noteq> ''stop''"
    by blast
  then show ?thesis
  proof cases
    case 1
    with assms p show ?thesis by (simp add: invokeCommand_def)
  next
    case 2
    with assms p have "\<exists>v. s' = startNewThread newId rnd v s"
      by (auto simp: invokeCommand_def Let_def)
    then show ?thesis by blast
  next
    case 3
    show ?thesis
    proof (cases "stoi_at arguments 0")
      case (Inl e)
      with assms p 3 have "s' = say ProvideThreadId s"
        by (simp add: invokeCommand_def)
      then show ?thesis by blast
    next
      case (Inr v)
      with assms p 3 have "killThread (of_int v) s = Some (Inr s')"
        by (simp add: invokeCommand_def)
      then show ?thesis by blast
    qed
  next
    case 4
    show ?thesis
    proof (cases "stoi_at arguments 0")
      case (Inl e)
      with assms p 4 have "s' = say ProvideThreadId s"
        by (simp add: invokeCommand_def)
      then show ?thesis by blast
    next
      case (Inr v)
      with assms p 4 have "\<exists>n. s' = resetThread (of_int v) n s"
        by (auto simp: invokeCommand_def Let_def)
      then show ?thesis by blast
    qed
  next
    case 5
    with assms p show ?thesis by (simp add: invokeCommand_def)
  next
    case 6
    with assms p have "s' = say UnknownCommand s"
      by (simp add: invokeCommand_def)
    then show ?thesis by blast
  qed
qed

subsection \<open>The \<^verbatim>\<open>killed\<close> flag along the steps of the process\<close>

lemma launcherStep_fields:
  assumes "launcherStep number newId rnd (l, s) = (l', s')"
  shows "threadsData s' = threadsData s" and "programFinished s' = programFinished s"
    and "runningThreads s' = runningThreads s \<or>
         (\<exists>i. l = Spawning i) \<and> runningThreads s' = runningThreads s @
           [Joinable \<lparr>threadId = newId, pc = Register, threadValue = of_int rnd\<rparr>]"
  using assms
  by (auto simp: launcherStep_def startNewThread_def initializeThreadValue_def
      split: launcher.splits if_splits)

lemma killThread_split:
  "killThread t s =
     (case killJoin t s of
        None \<Rightarrow> None
      | Some (Inl e) \<Rightarrow> Some (Inl e)
      | Some (Inr (Listening, s')) \<Rightarrow> Some (Inr s')
      | Some (Inr (Erasing idToKill threadIt, s2)) \<Rightarrow> Some (killErase idToKill threadIt s2))"
  by (simp add: killThread_def killJoin_def killErase_def Let_def
      split: option.splits sum.splits)

lemma killJoin_Inr:
  assumes "killJoin t s = Some (Inr (m, s'))"
  shows "m = Listening \<and> s' = s \<and> threadsData s t = None \<or>
    (\<exists>d it. threadsData s t = Some d \<and> m = Erasing t it \<and>
       flags_kept (s\<lparr>threadsData := (threadsData s)(t \<mapsto> d\<lparr>killed := True\<rparr>)\<rparr>) s' \<and>
       programFinished s' = programFinished s)"
proof (cases "threadsData s t")
  case None
  with assms show ?thesis by (auto simp: killJoin_def)
next
  case (Some d)
  let ?s1 = "s\<lparr>threadsData := (threadsData s)(t \<mapsto> d\<lparr>killed := True\<rparr>)\<rparr>"
  show ?thesis
  proof (cases "find_if (\<lambda>thread. get_id thread = t) (runningThreads s)")
    case None
    with assms Some have "m = Erasing t None" and "s' = ?s1"
      by (auto simp: killJoin_def)
    with Some show ?thesis by (auto simp: flags_kept_refl)
  next
    case f: (Some i)
    with assms Some have j: "join i ?s1 = Some (Inr s')" and m: "m = Erasing t (Some i)"
      by (auto simp: killJoin_def split: option.splits sum.splits)
    from join_returns [OF j] have "flags_kept ?s1 s'" and "programFinished s' = programFinished s"
      by simp_all
    with Some m show ?thesis by blast
  qed
qed

lemma killErase_Inr:
  "killErase t it s = Inr s' \<Longrightarrow>
     threadsData s' = (threadsData s)(t := None) \<and> programFinished s' = programFinished s"
  by (auto simp: killErase_def split: option.splits sum.splits)

lemma dispatch_Inr:
  assumes "dispatch newId rnd line s = Some (Inr (m, s'))"
  shows "(\<exists>t. killJoin t s = Some (Inr (m, s'))) \<or>
         m = Listening \<and> s' = say ProvideThreadId s \<or>
         m = Listening \<and> fst (parseCommand line) \<noteq> ''kill'' \<and>
           invokeCommand newId rnd line s = Some (Inr s')"
  using assms
  by (auto simp: dispatch_def split: prod.splits if_splits sum.splits option.splits)

text \<open>
  A line dispatched and, for \<^verbatim>\<open>kill\<close>, followed at once by the last block of
  \<^verbatim>\<open>killThread\<close> is \<^verbatim>\<open>invokeCommand\<close> on that line.
\<close>

lemma dispatch_invokeCommand:
  "invokeCommand newId rnd line s =
     (case dispatch newId rnd line s of
        None \<Rightarrow> None
      | Some (Inl e) \<Rightarrow> Some (Inl e)
      | Some (Inr (Listening, s')) \<Rightarrow> Some (Inr s')
      | Some (Inr (Erasing idToKill threadIt, s2)) \<Rightarrow> Some (killErase idToKill threadIt s2))"
proof -
  obtain command arguments where p: "parseCommand line = (command, arguments)"
    by (cases "parseCommand line")
  show ?thesis
  proof (cases "command = ''kill''")
    case False
    with p show ?thesis
      by (simp add: dispatch_def split: option.splits sum.splits)
  next
    case True
    show ?thesis
    proof (cases "stoi_at arguments 0")
      case (Inl e)
      with p True show ?thesis by (simp add: dispatch_def invokeCommand_def)
    next
      case (Inr v)
      with p True show ?thesis
        by (simp add: dispatch_def invokeCommand_def killThread_split)
    qed
  qed
qed

lemma flags_kept_killed:
  assumes "flags_kept s s'"
  shows "(\<forall>t d d'. threadsData s t = Some d \<and> killed d \<and> threadsData s' t = Some d' \<longrightarrow> killed d') \<and>
         (\<forall>t d'. threadsData s t = None \<and> threadsData s' t = Some d' \<longrightarrow> \<not> killed d')"
  using assms unfolding flags_kept_def by fastforce

lemma invokeCommand_killed:
  assumes "invokeCommand newId rnd line s = Some (Inr s')"
  shows "(\<forall>t d d'. threadsData s t = Some d \<and> killed d \<and> threadsData s' t = Some d' \<longrightarrow> killed d') \<and>
         (\<forall>t d'. threadsData s t = None \<and> threadsData s' t = Some d' \<longrightarrow> \<not> killed d')"
proof -
  note k = flags_kept_killed
  have same: "flags_kept s s'" if "threadsData s' = threadsData s"
    using that by (rule flags_kept_same)
  from invokeCommand_Inr [OF assms] consider
    "printThreadsInfo s = Inr s'" | v where "s' = startNewThread newId rnd v s"
    | m where "s' = say m s" | t where "killThread t s = Some (Inr s')"
    | t v where "s' = resetThread t v s"
    | "stopRunningThreads (s\<lparr>programFinished := True\<rparr>) = Some (Inr s')"
    by blast
  then show ?thesis
  proof cases
    case 1
    from printThreadsInfo_fields(3) [OF 1] show ?thesis by (intro k same)
  next
    case 2
    then show ?thesis by (intro k same) (simp add: startNewThread_fields)
  next
    case 3
    then show ?thesis by (intro k same) simp
  next
    case 4
    from killThread_Inr [OF 4] have "s' = s \<or> threadsData s' = (threadsData s)(t := None)"
      by auto
    then show ?thesis by (auto split: if_splits)
  next
    case 5
    then show ?thesis
      by (auto simp: resetThread_fields split: option.splits if_splits)
  next
    case 6
    from stopRunningThreads_returns [OF 6]
    have "flags_kept (s\<lparr>programFinished := True\<rparr>) s'" by simp
    then have "flags_kept s s'" by (simp add: flags_kept_def)
    then show ?thesis by (rule k)
  qed
qed

lemma killJoin_killed:
  assumes "killJoin t s = Some (Inr (m, s'))"
  shows "(\<forall>t d d'. threadsData s t = Some d \<and> killed d \<and> threadsData s' t = Some d' \<longrightarrow> killed d') \<and>
         (\<forall>t d'. threadsData s t = None \<and> threadsData s' t = Some d' \<longrightarrow> \<not> killed d')"
proof -
  from killJoin_Inr [OF assms] consider "s' = s"
    | d where "threadsData s t = Some d"
        "flags_kept (s\<lparr>threadsData := (threadsData s)(t \<mapsto> d\<lparr>killed := True\<rparr>)\<rparr>) s'"
    by blast
  then show ?thesis
  proof cases
    case 1
    then show ?thesis by auto
  next
    case 2
    let ?s1 = "s\<lparr>threadsData := (threadsData s)(t \<mapsto> d\<lparr>killed := True\<rparr>)\<rparr>"
    from flags_kept_killed [OF 2(2)]
    have a: "\<And>u e e'. threadsData ?s1 u = Some e \<Longrightarrow> killed e \<Longrightarrow> threadsData s' u = Some e' \<Longrightarrow> killed e'"
      and b: "\<And>u e'. threadsData ?s1 u = None \<Longrightarrow> threadsData s' u = Some e' \<Longrightarrow> \<not> killed e'"
      by blast+
    have "killed e'" if "threadsData s u = Some e" "killed e" "threadsData s' u = Some e'" for u e e'
    proof (cases "u = t")
      case True
      with a [of t "d\<lparr>killed := True\<rparr>" e'] that show ?thesis by simp
    next
      case False
      with a [of u e e'] that show ?thesis by simp
    qed
    moreover have "\<not> killed e'" if "threadsData s u = None" "threadsData s' u = Some e'" for u e'
    proof -
      from that 2(1) have "u \<noteq> t" by auto
      with b [of u e'] that show ?thesis by simp
    qed
    ultimately show ?thesis by blast
  qed
qed

text \<open>
  Claim C7. Along every step of the process that does not end it (a line of the operator
  dispatched by the thread of \<^verbatim>\<open>main\<close>, the last block of \<^verbatim>\<open>killThread\<close>, an action
  of the launcher, an action of a worker), and along every whole command of
  \<^verbatim>\<open>invokeCommand\<close> that returns: a record whose \<^verbatim>\<open>killed\<close> flag is set before is
  either gone afterwards or still has the flag set, and a record that is new afterwards
  has the flag clear. The step of a worker that inserts its record inserts it with the
  flag clear.
\<close>

theorem killed_flag_monotonic:
  assumes "exec number ev (m, l, s) = Some (Inr (m', l', s'))"
  shows "(\<forall>t d d'. threadsData s t = Some d \<and> killed d \<and> threadsData s' t = Some d' \<longrightarrow> killed d') \<and>
         (\<forall>t d'. threadsData s t = None \<and> threadsData s' t = Some d' \<longrightarrow> \<not> killed d') \<and>
         (\<forall>i w. ev = Work i \<and> i < length (runningThreads s) \<and>
            runningThreads s ! i = Joinable w \<and> pc w = Register \<and>
            threadsData s (threadId w) = None \<longrightarrow>
            threadsData s' (threadId w) = Some \<lparr>killed = False, value = threadValue w\<rparr>) \<and>
         (\<forall>newId rnd line s''. invokeCommand newId rnd line s = Some (Inr s'') \<longrightarrow>
            (\<forall>t d d'. threadsData s t = Some d \<and> killed d \<and> threadsData s'' t = Some d' \<longrightarrow> killed d') \<and>
            (\<forall>t d'. threadsData s t = None \<and> threadsData s'' t = Some d' \<longrightarrow> \<not> killed d'))"
proof -
  note k = flags_kept_killed
  have same: "flags_kept s s'" if "threadsData s' = threadsData s"
    using that by (rule flags_kept_same)
  have first: "(\<forall>t d d'. threadsData s t = Some d \<and> killed d \<and> threadsData s' t = Some d' \<longrightarrow> killed d') \<and>
         (\<forall>t d'. threadsData s t = None \<and> threadsData s' t = Some d' \<longrightarrow> \<not> killed d')"
  proof (cases ev)
    case (Line line newId rnd)
    show ?thesis
    proof (cases "m \<noteq> Listening \<or> programFinished s")
      case True
      with assms Line have "s' = s" by (auto simp: exec_def)
      then show ?thesis by (intro k flags_kept_same) simp
    next
      case False
      with assms Line have "dispatch newId rnd line s = Some (Inr (m', s'))"
        by (auto simp: exec_def split: option.splits sum.splits)
      from dispatch_Inr [OF this] consider
        t where "killJoin t s = Some (Inr (m', s'))" | "s' = say ProvideThreadId s"
        | "invokeCommand newId rnd line s = Some (Inr s')"
        by blast
      then show ?thesis
      proof cases
        case 1
        then show ?thesis by (rule killJoin_killed)
      next
        case 2
        then show ?thesis by (intro k same) simp
      next
        case 3
        then show ?thesis by (rule invokeCommand_killed)
      qed
    qed
  next
    case Erase
    show ?thesis
    proof (cases m)
      case Listening
      with assms Erase have "s' = s" by (auto simp: exec_def)
      then show ?thesis by (intro k flags_kept_same) simp
    next
      case (Erasing t it)
      with assms Erase have "killErase t it s = Inr s'"
        by (auto simp: exec_def split: sum.splits)
      from killErase_Inr [OF this] show ?thesis by (auto split: if_splits)
    qed
  next
    case (Launch newId rnd)
    with assms have "launcherStep number newId rnd (l, s) = (l', s')"
      by (auto simp: exec_def split: prod.splits)
    from launcherStep_fields(1) [OF this] show ?thesis by (intro k same)
  next
    case (Work i)
    with assms have "workerStep i s = Inr s'"
      by (auto simp: exec_def split: sum.splits)
    from workerStep_flags_kept [OF this] show ?thesis by (rule k)
  qed
  have second: "\<forall>i w. ev = Work i \<and> i < length (runningThreads s) \<and>
            runningThreads s ! i = Joinable w \<and> pc w = Register \<and>
            threadsData s (threadId w) = None \<longrightarrow>
            threadsData s' (threadId w) = Some \<lparr>killed = False, value = threadValue w\<rparr>"
  proof (intro allI impI)
    fix i w
    assume a: "ev = Work i \<and> i < length (runningThreads s) \<and>
            runningThreads s ! i = Joinable w \<and> pc w = Register \<and>
            threadsData s (threadId w) = None"
    with assms have "workerStep i s = Inr s'"
      by (auto simp: exec_def split: sum.splits)
    with a show "threadsData s' (threadId w) = Some \<lparr>killed = False, value = threadValue w\<rparr>"
      by (auto simp: workerStep_Register map_insert_absent)
  qed
  have third: "\<forall>newId rnd line s''. invokeCommand newId rnd line s = Some (Inr s'') \<longrightarrow>
            (\<forall>t d d'. threadsData s t = Some d \<and> killed d \<and> threadsData s'' t = Some d' \<longrightarrow> killed d') \<and>
            (\<forall>t d'. threadsData s t = None \<and> threadsData s'' t = Some d' \<longrightarrow> \<not> killed d')"
    using invokeCommand_killed by blast
  from first second third show ?thesis by blast
qed

theorem killed_flag_monotonic_witness:
  "exec 0 (Work 1)
     (Listening, NotStarted,
      \<lparr>programFinished = False,
       runningThreads = [Joinable \<lparr>threadId = 7, pc = Tick, threadValue = 3\<rparr>,
                         Joinable \<lparr>threadId = 9, pc = Register, threadValue = 5\<rparr>],
       threadsData = [7 \<mapsto> \<lparr>killed = True, value = 3\<rparr>], cout = []\<rparr>) =
   Some (Inr (Listening, NotStarted,
      \<lparr>programFinished = False,
       runningThreads = [Joinable \<lparr>threadId = 7, pc = Tick, threadValue = 3\<rparr>,
                         Joinable \<lparr>threadId = 9, pc = LoopHead, threadValue = 5\<rparr>],
       threadsData = [7 \<mapsto> \<lparr>killed = True, value = 3\<rparr>, 9 \<mapsto> \<lparr>killed = False, value = 5\<rparr>],
       cout = [Started 9 5]\<rparr>)) \<and>
   killed \<lparr>killed = True, value = 3\<rparr> \<and> \<not> killed \<lparr>killed = False, value = 5\<rparr>"
proof -
  let ?s = "\<lparr>programFinished = False,
       runningThreads = [Joinable \<lparr>threadId = 7, pc = Tick, threadValue = 3\<rparr>,
                         Joinable \<lparr>threadId = 9, pc = Register, threadValue = 5\<rparr>],
       threadsData = [7 \<mapsto> \<lparr>killed = True, value = 3\<rparr>], cout = []\<rparr>"
  let ?s' = "\<lparr>programFinished = False,
       runningThreads = [Joinable \<lparr>threadId = 7, pc = Tick, threadValue = 3\<rparr>,
                         Joinable \<lparr>threadId = 9, pc = LoopHead, threadValue = 5\<rparr>],
       threadsData = [7 \<mapsto> \<lparr>killed = True, value = 3\<rparr>, 9 \<mapsto> \<lparr>killed = False, value = 5\<rparr>],
       cout = [Started 9 5]\<rparr>"
  have e: "exec 0 (Work 1) (Listening, NotStarted, ?s) = Some (Inr (Listening, NotStarted, ?s'))"
    by (simp add: exec_def workerStep_def set_worker_def map_insert_def)
  from killed_flag_monotonic [OF e]
  have "killed \<lparr>killed = True, value = 3\<rparr>" and "\<not> killed \<lparr>killed = False, value = 5\<rparr>"
    by simp_all
  with e show ?thesis by simp
qed

section \<open>Properties of the start-up and of the exit\<close>








subsection \<open>The exit after \<^verbatim>\<open>stop\<close>\<close>

lemma init_fields:
  "programFinished init = False" "runningThreads init = []" "cout init = []"
  by (simp_all add: init_def)






text \<open>
  A launcher that has passed the test of its loop when \<^verbatim>\<open>stop\<close> sets
  \<^verbatim>\<open>programFinished\<close> still calls \<^verbatim>\<open>startNewThread\<close>; when that happens after the
  joins of \<^verbatim>\<open>stopRunningThreads\<close>, nothing joins the new thread, and the destructor of
  \<^verbatim>\<open>runningThreads\<close> calls \<^verbatim>\<open>std::terminate\<close>.
\<close>

lemma stop_then_spawn_terminates:
  "main 4 [''prog'', ''--threads'', ''1'']
     [Launch 0 0, Launch 0 0, Line ''stop'' 0 0, Launch 7 5, Launch 0 0] =
   Some (Aborted Terminate)"
proof -
  have one: "convertArgumentToPositiveInteger ''1'' = Inr 1"
    by (simp add: convertArgumentToPositiveInteger_def stoi_def isspace_def isdigit_def
        digits_value_def)
  have cl: "parseCommandLine 4 [''prog'', ''--threads'', ''1''] = Inr (1, 1)"
    by (simp add: parseCommandLine_def one)
  let ?s1 = "\<lparr>programFinished = False, runningThreads = [], threadsData = Map.empty,
      cout = [InitializerStarted]\<rparr>"
  let ?s2 = "\<lparr>programFinished = True, runningThreads = [], threadsData = Map.empty,
      cout = [InitializerStarted]\<rparr>"
  have e1: "exec 1 (Launch 0 0) (Listening, NotStarted, init) =
      Some (Inr (Listening, Launching 0, ?s1))"
    by (simp add: exec_def launcherStep_def say_def init_def)
  have e2: "exec 1 (Launch 0 0) (Listening, Launching 0, ?s1) =
      Some (Inr (Listening, Spawning 0, ?s1))"
    by (simp add: exec_def launcherStep_def)
  have d: "dispatch 0 0 ''stop'' ?s1 = Some (Inr (Listening, ?s2))"
    by (simp add: dispatch_def parseCommand_stop invokeCommand_stop stopRunningThreads_def)
  have e3: "exec 1 (Line ''stop'' 0 0) (Listening, Spawning 0, ?s1) =
      Some (Inr (Listening, Spawning 0, ?s2))"
    by (simp add: exec_def d)
  have r: "run 1 [Launch 0 0, Launch 0 0, Line ''stop'' 0 0, Launch 7 5, Launch 0 0]
      (Listening, NotStarted, init) =
      Some (Inr ([Launch 7 5, Launch 0 0], Listening, Spawning 0, ?s2))"
    by (simp add: e1 e2 e3 init_fields del: One_nat_def)
  have j: "joinLauncher 1 [Launch 7 5, Launch 0 0] (Spawning 0, ?s2) =
      Some (Inr (LauncherDone,
        \<lparr>programFinished = True,
         runningThreads = [Joinable \<lparr>threadId = 7, pc = Register, threadValue = 5\<rparr>],
         threadsData = Map.empty,
         cout = [InitializerStarted, InitializerFinished]\<rparr>))"
    by (simp add: launcherStep_def startNewThread_def initializeThreadValue_def say_def)
  show ?thesis
    by (simp add: main_def cl r j joinable_def del: run.simps joinLauncher.simps One_nat_def)
qed




section \<open>\<^verbatim>\<open>killThread\<close> among the other threads\<close>

lemma find_if_first:
  assumes "i < length xs" and "P (xs ! i)" and "\<forall>j<i. \<not> P (xs ! j)"
  shows "find_if P xs = Some i"
proof (cases "find_if P xs")
  case None
  with assms(1,2) show ?thesis by (auto simp: find_if_None)
next
  case (Some k)
  from find_if_Some [OF Some] have k: "P (xs ! k)" "\<forall>j<k. \<not> P (xs ! j)" by simp_all
  have "\<not> k < i" using k(1) assms(3) by blast
  moreover have "\<not> i < k" using k(2) assms(2) by blast
  ultimately have "k = i" by simp
  with Some show ?thesis by simp
qed

text \<open>
  \<^verbatim>\<open>join\<close> on a worker whose record is killed returns once the worker has run to its
  end: the handle owns no thread any more and the last lines of the worker are printed.
\<close>

lemma join_killed_lastLines:
  assumes i: "i < length (runningThreads s)" and w: "runningThreads s ! i = Joinable w"
    and d: "threadsData s (threadId w) = Some d" and k: "killed d"
  shows "join i s =
     Some (Inr (s\<lparr>runningThreads := (runningThreads s)[i := NotJoinable],
                  cout := cout s @ lastLines w\<rparr>))"
proof (cases "pc w")
  case Register
  from join_killed_Register [OF i w Register d k] Register show ?thesis
    by (simp add: lastLines_def)
next
  case LoopHead
  from join_killed_LoopHead [OF i w LoopHead d k] LoopHead show ?thesis
    by (simp add: lastLines_def)
next
  case Tick
  from join_killed_Tick [OF i w Tick d k] Tick show ?thesis
    by (simp add: lastLines_def)
next
  case Exited
  from join_Exited [OF i w Exited] Exited show ?thesis
    by (simp add: lastLines_def)
qed

text \<open>
  Between the return of \<^verbatim>\<open>join\<close> and the last block of \<^verbatim>\<open>killThread\<close> the other
  threads act, and the thread of \<^verbatim>\<open>main\<close> reads no line: the joined handle stays where
  it is and stays joined, and the locals of \<^verbatim>\<open>killThread\<close> are kept.
\<close>

lemma exec_keeps_joined:
  assumes e: "exec number ev (Erasing t (Some i), l, s) = Some (Inr (m', l', s'))"
    and ev: "ev \<noteq> Erase"
    and i: "i < length (runningThreads s)" and n: "runningThreads s ! i = NotJoinable"
  shows "m' = Erasing t (Some i) \<and> i < length (runningThreads s') \<and>
         runningThreads s' ! i = NotJoinable"
proof (cases ev)
  case (Line line newId rnd)
  with e i n show ?thesis by (simp add: exec_def)
next
  case Erase
  with ev show ?thesis by simp
next
  case (Launch newId rnd)
  with e have st: "launcherStep number newId rnd (l, s) = (l', s')" and m: "m' = Erasing t (Some i)"
    by (auto simp: exec_def split: prod.splits)
  from launcherStep_fields(3) [OF st] i n m show ?thesis
    by (auto simp: nth_append)
next
  case (Work j)
  with e have st: "workerStep j s = Inr s'" and m: "m' = Erasing t (Some i)"
    by (auto simp: exec_def split: sum.splits)
  from workerStep_Inr [OF st] i n m show ?thesis
    by (cases "j = i") auto
qed

text \<open>
  Claim C1, as the code has it. \<^verbatim>\<open>killThread\<close> on an id without a record returns at
  once and changes nothing, whether or not a worker with that id is running. On an id with
  a record, whose first handle in \<^verbatim>\<open>runningThreads\<close> is that of a worker \<open>w\<close>:
  \<^verbatim>\<open>killThread\<close> sets the \<^verbatim>\<open>killed\<close> flag and joins the worker, which runs to its end
  and prints its last lines before \<^verbatim>\<open>join\<close> returns; the handle then owns no thread.
  The last block, run in a state where the joined handle is still at its position, erases
  the record of the id and that handle; after it \<^verbatim>\<open>killThread\<close> and \<^verbatim>\<open>resetThread\<close> on
  the id change nothing, and when no other handle has the id, no handle with the id is
  left and \<^verbatim>\<open>printThreadsInfo\<close> prints no line for it.
\<close>

theorem killThread_joins_then_erases:
  "(threadsData s t = None \<longrightarrow>
      killThread t s = Some (Inr s) \<and> killJoin t s = Some (Inr (Listening, s))) \<and>
   (\<forall>i w d.
      i < length (runningThreads s) \<and> runningThreads s ! i = Joinable w \<and> threadId w = t \<and>
      (\<forall>j<i. get_id (runningThreads s ! j) \<noteq> t) \<and> threadsData s t = Some d \<longrightarrow>
      killJoin t s =
        Some (Inr (Erasing t (Some i),
          s\<lparr>threadsData := (threadsData s)(t \<mapsto> d\<lparr>killed := True\<rparr>),
            runningThreads := (runningThreads s)[i := NotJoinable],
            cout := cout s @ lastLines w\<rparr>)) \<and>
      killThread t s =
        Some (Inr (s\<lparr>threadsData := (threadsData s)(t := None),
          runningThreads := take i (runningThreads s) @ drop (Suc i) (runningThreads s),
          cout := cout s @ lastLines w\<rparr>))) \<and>
   (\<forall>i (s3 :: state). i < length (runningThreads s3) \<and> runningThreads s3 ! i = NotJoinable \<longrightarrow>
      (\<exists>s'. killErase t (Some i) s3 = Inr s' \<and>
         s' = s3\<lparr>threadsData := (threadsData s3)(t := None),
                 runningThreads := take i (runningThreads s3) @ drop (Suc i) (runningThreads s3)\<rparr> \<and>
         killThread t s' = Some (Inr s') \<and>
         (\<forall>v. resetThread t v s' = s') \<and>
         ((\<forall>j<length (runningThreads s3). j \<noteq> i \<longrightarrow> get_id (runningThreads s3 ! j) \<noteq> t) \<longrightarrow>
            (\<forall>thread\<in>set (runningThreads s'). get_id thread \<noteq> t) \<and>
            (\<forall>s'' v. printThreadsInfo s' = Inr s'' \<longrightarrow>
               Info t v \<notin> set (drop (length (cout s')) (cout s''))))))"
proof (intro conjI impI allI)
  assume "threadsData s t = None"
  then show "killThread t s = Some (Inr s)" by (rule killThread_unknown)
next
  assume "threadsData s t = None"
  then show "killJoin t s = Some (Inr (Listening, s))" by (simp add: killJoin_def)
next
  fix i w d
  assume a: "i < length (runningThreads s) \<and> runningThreads s ! i = Joinable w \<and> threadId w = t \<and>
      (\<forall>j<i. get_id (runningThreads s ! j) \<noteq> t) \<and> threadsData s t = Some d"
  then have i: "i < length (runningThreads s)" and w: "runningThreads s ! i = Joinable w"
    and t: "threadId w = t"
    and u: "\<forall>j<i. get_id (runningThreads s ! j) \<noteq> t"
    and d: "threadsData s t = Some d"
    by simp_all
  let ?s1 = "s\<lparr>threadsData := (threadsData s)(t \<mapsto> d\<lparr>killed := True\<rparr>)\<rparr>"
  let ?s2 = "s\<lparr>threadsData := (threadsData s)(t \<mapsto> d\<lparr>killed := True\<rparr>),
            runningThreads := (runningThreads s)[i := NotJoinable],
            cout := cout s @ lastLines w\<rparr>"
  have f: "find_if (\<lambda>thread. get_id thread = t) (runningThreads ?s1) = Some i"
    using i w t u by (intro find_if_first) simp_all
  have "join i ?s1 =
      Some (Inr (?s1\<lparr>runningThreads := (runningThreads ?s1)[i := NotJoinable],
                     cout := cout ?s1 @ lastLines w\<rparr>))"
    using i w t by (intro join_killed_lastLines [where d = "d\<lparr>killed := True\<rparr>"]) simp_all
  then have j: "join i ?s1 = Some (Inr ?s2)" by simp
  show kj: "killJoin t s = Some (Inr (Erasing t (Some i), ?s2))"
    using d f j by (simp add: killJoin_def)
  have "killErase t (Some i) ?s2 =
      Inr (s\<lparr>threadsData := (threadsData s)(t := None),
          runningThreads := take i (runningThreads s) @ drop (Suc i) (runningThreads s),
          cout := cout s @ lastLines w\<rparr>)"
    using i by (simp add: killErase_def erase_NotJoinable)
  with kj show "killThread t s =
        Some (Inr (s\<lparr>threadsData := (threadsData s)(t := None),
          runningThreads := take i (runningThreads s) @ drop (Suc i) (runningThreads s),
          cout := cout s @ lastLines w\<rparr>))"
    by (simp add: killThread_split)
next
  fix i and s3 :: state
  assume a: "i < length (runningThreads s3) \<and> runningThreads s3 ! i = NotJoinable"
  let ?s' = "s3\<lparr>threadsData := (threadsData s3)(t := None),
                 runningThreads := take i (runningThreads s3) @ drop (Suc i) (runningThreads s3)\<rparr>"
  from a have i: "i < length (runningThreads s3)" by simp
  have e: "killErase t (Some i) s3 = Inr ?s'"
    using a by (simp add: killErase_def erase_def)
  have again: "killThread t ?s' = Some (Inr ?s')"
    by (rule killThread_unknown) simp
  have reset: "\<forall>v. resetThread t v ?s' = ?s'"
    by (simp add: resetThread_def)
  have rest: "(\<forall>thread\<in>set (runningThreads ?s'). get_id thread \<noteq> t) \<and>
      (\<forall>s'' v. printThreadsInfo ?s' = Inr s'' \<longrightarrow>
         Info t v \<notin> set (drop (length (cout ?s')) (cout s'')))"
    if u: "\<forall>j<length (runningThreads s3). j \<noteq> i \<longrightarrow> get_id (runningThreads s3 ! j) \<noteq> t"
  proof -
    have ids: "\<forall>thread\<in>set (runningThreads ?s'). get_id thread \<noteq> t"
    proof
      fix thread assume "thread \<in> set (runningThreads ?s')"
      then have "thread \<in> set (take i (runningThreads s3) @ drop (Suc i) (runningThreads s3))"
        by simp
      from in_set_erase_position [OF i this] u show "get_id thread \<noteq> t" by auto
    qed
    have "\<forall>s'' v. printThreadsInfo ?s' = Inr s'' \<longrightarrow>
        Info t v \<notin> set (drop (length (cout ?s')) (cout s''))"
    proof (intro allI impI)
      fix s'' v
      assume "printThreadsInfo ?s' = Inr s''"
      then have "printLoop (runningThreads ?s') ?s' = Inr s''"
        by (simp add: printThreadsInfo_def)
      from printLoop_Inr [OF this]
      have "drop (length (cout ?s')) (cout s'') =
          map (\<lambda>thread. Info (get_id thread) (value (the (threadsData ?s' (get_id thread)))))
            (runningThreads ?s')"
        by simp
      with ids show "Info t v \<notin> set (drop (length (cout ?s')) (cout s''))"
        by auto
    qed
    with ids show ?thesis by blast
  qed
  from e again reset rest
  show "\<exists>s'. killErase t (Some i) s3 = Inr s' \<and>
         s' = ?s' \<and>
         killThread t s' = Some (Inr s') \<and>
         (\<forall>v. resetThread t v s' = s') \<and>
         ((\<forall>j<length (runningThreads s3). j \<noteq> i \<longrightarrow> get_id (runningThreads s3 ! j) \<noteq> t) \<longrightarrow>
            (\<forall>thread\<in>set (runningThreads s'). get_id thread \<noteq> t) \<and>
            (\<forall>s'' v. printThreadsInfo s' = Inr s'' \<longrightarrow>
               Info t v \<notin> set (drop (length (cout s')) (cout s''))))"
    by blast
qed

theorem killThread_joins_then_erases_witness:
  "killJoin 7
     \<lparr>programFinished = False,
      runningThreads = [Joinable \<lparr>threadId = 7, pc = Tick, threadValue = 3\<rparr>,
                        Joinable \<lparr>threadId = 9, pc = LoopHead, threadValue = 5\<rparr>],
      threadsData = [9 \<mapsto> \<lparr>killed = False, value = 5\<rparr>, 7 \<mapsto> \<lparr>killed = False, value = 3\<rparr>],
      cout = []\<rparr> =
     Some (Inr (Erasing 7 (Some 0),
       \<lparr>programFinished = False,
        runningThreads = [NotJoinable,
                          Joinable \<lparr>threadId = 9, pc = LoopHead, threadValue = 5\<rparr>],
        threadsData = [9 \<mapsto> \<lparr>killed = False, value = 5\<rparr>, 7 \<mapsto> \<lparr>killed = True, value = 3\<rparr>],
        cout = [Finished 7 3]\<rparr>)) \<and>
   killErase 7 (Some 0)
     \<lparr>programFinished = False,
      runningThreads = [NotJoinable,
                        Joinable \<lparr>threadId = 9, pc = LoopHead, threadValue = 5\<rparr>],
      threadsData = [9 \<mapsto> \<lparr>killed = False, value = 5\<rparr>, 7 \<mapsto> \<lparr>killed = True, value = 3\<rparr>],
      cout = [Finished 7 3]\<rparr> =
     Inr \<lparr>programFinished = False,
          runningThreads = [Joinable \<lparr>threadId = 9, pc = LoopHead, threadValue = 5\<rparr>],
          threadsData = [9 \<mapsto> \<lparr>killed = False, value = 5\<rparr>],
          cout = [Finished 7 3]\<rparr> \<and>
   killThread 7
     \<lparr>programFinished = False,
      runningThreads = [Joinable \<lparr>threadId = 7, pc = Tick, threadValue = 3\<rparr>,
                        Joinable \<lparr>threadId = 9, pc = LoopHead, threadValue = 5\<rparr>],
      threadsData = [9 \<mapsto> \<lparr>killed = False, value = 5\<rparr>, 7 \<mapsto> \<lparr>killed = False, value = 3\<rparr>],
      cout = []\<rparr> =
     Some (Inr
       \<lparr>programFinished = False,
        runningThreads = [Joinable \<lparr>threadId = 9, pc = LoopHead, threadValue = 5\<rparr>],
        threadsData = [9 \<mapsto> \<lparr>killed = False, value = 5\<rparr>],
        cout = [Finished 7 3]\<rparr>) \<and>
   killThread 8
     \<lparr>programFinished = False,
      runningThreads = [Joinable \<lparr>threadId = 7, pc = Tick, threadValue = 3\<rparr>,
                        Joinable \<lparr>threadId = 9, pc = LoopHead, threadValue = 5\<rparr>],
      threadsData = [9 \<mapsto> \<lparr>killed = False, value = 5\<rparr>, 7 \<mapsto> \<lparr>killed = False, value = 3\<rparr>],
      cout = []\<rparr> =
     Some (Inr
       \<lparr>programFinished = False,
        runningThreads = [Joinable \<lparr>threadId = 7, pc = Tick, threadValue = 3\<rparr>,
                          Joinable \<lparr>threadId = 9, pc = LoopHead, threadValue = 5\<rparr>],
        threadsData = [9 \<mapsto> \<lparr>killed = False, value = 5\<rparr>, 7 \<mapsto> \<lparr>killed = False, value = 3\<rparr>],
        cout = []\<rparr>)"
proof -
  let ?w = "\<lparr>threadId = 7, pc = Tick, threadValue = 3\<rparr> :: worker"
  let ?d = "\<lparr>killed = False, value = 3\<rparr> :: ThreadData"
  let ?s = "\<lparr>programFinished = False,
        runningThreads = [Joinable ?w, Joinable \<lparr>threadId = 9, pc = LoopHead, threadValue = 5\<rparr>],
        threadsData = [9 \<mapsto> \<lparr>killed = False, value = 5\<rparr>, 7 \<mapsto> ?d],
        cout = []\<rparr>"
  let ?s2 = "\<lparr>programFinished = False,
        runningThreads = [NotJoinable, Joinable \<lparr>threadId = 9, pc = LoopHead, threadValue = 5\<rparr>],
        threadsData = [9 \<mapsto> \<lparr>killed = False, value = 5\<rparr>, 7 \<mapsto> \<lparr>killed = True, value = 3\<rparr>],
        cout = [Finished 7 3]\<rparr>"
  have a: "killJoin 7 ?s = Some (Inr (Erasing 7 (Some 0), ?s2)) \<and>
      killThread 7 ?s =
        Some (Inr \<lparr>programFinished = False,
          runningThreads = [Joinable \<lparr>threadId = 9, pc = LoopHead, threadValue = 5\<rparr>],
          threadsData = [9 \<mapsto> \<lparr>killed = False, value = 5\<rparr>],
          cout = [Finished 7 3]\<rparr>)"
    using killThread_joins_then_erases [of ?s 7, THEN conjunct2, THEN conjunct1,
        rule_format, of 0 ?w ?d]
    by (simp add: lastLines_def)
  have b: "killThread 8 ?s = Some (Inr ?s)"
    using killThread_joins_then_erases [of ?s 8, THEN conjunct1] by simp
  have c: "killErase 7 (Some 0) ?s2 =
      Inr \<lparr>programFinished = False,
          runningThreads = [Joinable \<lparr>threadId = 9, pc = LoopHead, threadValue = 5\<rparr>],
          threadsData = [9 \<mapsto> \<lparr>killed = False, value = 5\<rparr>],
          cout = [Finished 7 3]\<rparr>"
    using killThread_joins_then_erases [of ?s 7, THEN conjunct2, THEN conjunct2,
        rule_format, of 0 ?s2]
    by simp
  from a b c show ?thesis by simp
qed

text \<open>
  Claim C1 as stated fails for a running worker that has not inserted its record yet:
  \<^verbatim>\<open>kill 7\<close> returns with the worker still running and its handle still in
  \<^verbatim>\<open>runningThreads\<close>; the worker then registers, and a later \<^verbatim>\<open>info\<close> prints its line.
\<close>

theorem kill_before_registration_keeps_worker:
  "killThread 7
     \<lparr>programFinished = False,
      runningThreads = [Joinable \<lparr>threadId = 7, pc = Register, threadValue = 100\<rparr>],
      threadsData = Map.empty, cout = []\<rparr> =
     Some (Inr
       \<lparr>programFinished = False,
        runningThreads = [Joinable \<lparr>threadId = 7, pc = Register, threadValue = 100\<rparr>],
        threadsData = Map.empty, cout = []\<rparr>) \<and>
   main 4 [''prog'', ''--threads'', ''0'']
     [Line ''new 100'' 7 0, Line ''kill 7'' 0 0, Work 0, Line ''info'' 0 0, Line ''stop'' 0 0,
      Launch 0 0, Launch 0 0] =
     Some (Exit 0 [Started 7 100, Info 7 100, Finished 7 100,
                   InitializerStarted, InitializerFinished])"
proof -
  let ?s1 = "\<lparr>programFinished = False,
      runningThreads = [Joinable \<lparr>threadId = 7, pc = Register, threadValue = 100\<rparr>],
      threadsData = Map.empty, cout = []\<rparr>"
  let ?s2 = "\<lparr>programFinished = False,
      runningThreads = [Joinable \<lparr>threadId = 7, pc = LoopHead, threadValue = 100\<rparr>],
      threadsData = [7 \<mapsto> \<lparr>killed = False, value = 100\<rparr>], cout = [Started 7 100]\<rparr>"
  let ?s3 = "\<lparr>programFinished = False,
      runningThreads = [Joinable \<lparr>threadId = 7, pc = LoopHead, threadValue = 100\<rparr>],
      threadsData = [7 \<mapsto> \<lparr>killed = False, value = 100\<rparr>],
      cout = [Started 7 100, Info 7 100]\<rparr>"
  let ?s3f = "\<lparr>programFinished = True,
      runningThreads = [Joinable \<lparr>threadId = 7, pc = LoopHead, threadValue = 100\<rparr>],
      threadsData = [7 \<mapsto> \<lparr>killed = False, value = 100\<rparr>],
      cout = [Started 7 100, Info 7 100]\<rparr>"
  let ?s4 = "\<lparr>programFinished = True,
      runningThreads = [NotJoinable],
      threadsData = [7 \<mapsto> \<lparr>killed = False, value = 100\<rparr>],
      cout = [Started 7 100, Info 7 100, Finished 7 100]\<rparr>"
  let ?s5 = "\<lparr>programFinished = True,
      runningThreads = [NotJoinable],
      threadsData = [7 \<mapsto> \<lparr>killed = False, value = 100\<rparr>],
      cout = [Started 7 100, Info 7 100, Finished 7 100,
              InitializerStarted, InitializerFinished]\<rparr>"
  have k: "killThread 7 ?s1 = Some (Inr ?s1)"
    by (simp add: killThread_def)
  have cl: "parseCommandLine 4 [''prog'', ''--threads'', ''0''] = Inr (0, 1)"
    by (simp add: parseCommandLine_def convertArgumentToPositiveInteger_def
        stoi_def isspace_def isdigit_def digits_value_def)
  have pn: "parseCommand ''new 100'' = (''new'', [''100''])"
    by (simp add: parseCommand_def isspace_def)
  have vn: "stoi_at [''100''] 0 = Inr 100"
    by (simp add: stoi_at_def at_def stoi_def isspace_def isdigit_def digits_value_def)
  have pk: "parseCommand ''kill 7'' = (''kill'', [''7''])"
    by (simp add: parseCommand_def isspace_def)
  have vk: "stoi_at [''7''] 0 = Inr 7"
    by (simp add: stoi_at_def at_def stoi_def isspace_def isdigit_def digits_value_def)
  have d1: "dispatch 7 0 ''new 100'' init = Some (Inr (Listening, ?s1))"
    by (simp add: dispatch_def invokeCommand_def pn vn startNewThread_def
        initializeThreadValue_def init_def)
  have d2: "dispatch 0 0 ''kill 7'' ?s1 = Some (Inr (Listening, ?s1))"
    by (simp add: dispatch_def pk vk killJoin_def)
  have w3: "workerStep 0 ?s1 = Inr ?s2"
    by (simp add: workerStep_def set_worker_def map_insert_def)
  have d4: "dispatch 0 0 ''info'' ?s2 = Some (Inr (Listening, ?s3))"
    by (simp add: dispatch_def parseCommand_info invokeCommand_info printThreadsInfo_def)
  have "join 0 ?s3f =
     Some (Inr (?s3f\<lparr>runningThreads := (runningThreads ?s3f)[0 := NotJoinable],
                  cout := cout ?s3f @ [Finished 7 100]\<rparr>))"
    using join_finished_LoopHead [of ?s3f 0 "\<lparr>threadId = 7, pc = LoopHead, threadValue = 100\<rparr>"]
    by simp
  then have j: "join 0 ?s3f = Some (Inr ?s4)" by simp
  have d5: "dispatch 0 0 ''stop'' ?s3 = Some (Inr (Listening, ?s4))"
    by (simp add: dispatch_def parseCommand_stop invokeCommand_stop stopRunningThreads_def j)
  have e1: "exec 0 (Line ''new 100'' 7 0) (Listening, NotStarted, init) =
      Some (Inr (Listening, NotStarted, ?s1))"
    by (simp add: exec_def d1 init_fields)
  have e2: "exec 0 (Line ''kill 7'' 0 0) (Listening, NotStarted, ?s1) =
      Some (Inr (Listening, NotStarted, ?s1))"
    by (simp add: exec_def d2)
  have e3: "exec 0 (Work 0) (Listening, NotStarted, ?s1) =
      Some (Inr (Listening, NotStarted, ?s2))"
    by (simp add: exec_def w3)
  have e4: "exec 0 (Line ''info'' 0 0) (Listening, NotStarted, ?s2) =
      Some (Inr (Listening, NotStarted, ?s3))"
    by (simp add: exec_def d4)
  have e5: "exec 0 (Line ''stop'' 0 0) (Listening, NotStarted, ?s3) =
      Some (Inr (Listening, NotStarted, ?s4))"
    by (simp add: exec_def d5)
  have r: "run 0 [Line ''new 100'' 7 0, Line ''kill 7'' 0 0, Work 0, Line ''info'' 0 0,
        Line ''stop'' 0 0, Launch 0 0, Launch 0 0] (Listening, NotStarted, init) =
      Some (Inr ([Launch 0 0, Launch 0 0], Listening, NotStarted, ?s4))"
    by (simp add: e1 e2 e3 e4 e5 init_fields)
  have jl: "joinLauncher 0 [Launch 0 0, Launch 0 0] (NotStarted, ?s4) =
      Some (Inr (LauncherDone, ?s5))"
    by (simp add: launcherStep_def say_def)
  have "main 4 [''prog'', ''--threads'', ''0'']
     [Line ''new 100'' 7 0, Line ''kill 7'' 0 0, Work 0, Line ''info'' 0 0, Line ''stop'' 0 0,
      Launch 0 0, Launch 0 0] =
     Some (Exit 0 [Started 7 100, Info 7 100, Finished 7 100,
                   InitializerStarted, InitializerFinished])"
    by (simp add: main_def cl r jl joinable_def del: run.simps joinLauncher.simps)
  with k show ?thesis by simp
qed

text \<open>
  Claim C5 at a failing input. The program runs with \<^verbatim>\<open>--threads 2\<close>. The first worker
  gets id 7 and registers. The operator enters \<^verbatim>\<open>kill 7\<close>: \<^verbatim>\<open>killThread\<close> marks the
  record and joins the worker. Before its last block the launcher starts the second
  worker, which the system gives the id of the joined thread; its \<^verbatim>\<open>insert\<close> finds the
  record of the first worker and keeps it. The last block of \<^verbatim>\<open>killThread\<close> then erases
  that record, and at its first tick the second worker calls \<^verbatim>\<open>threadsData.at\<close> on an id
  without a record: \<^verbatim>\<open>std::out_of_range\<close> is thrown, nothing catches it, and the process
  is terminated instead of the worker stopping.
\<close>

theorem worker_missing_record_throws:
  "workerStep 0
     \<lparr>programFinished = False,
      runningThreads = [Joinable \<lparr>threadId = 7, pc = Tick, threadValue = 9\<rparr>],
      threadsData = Map.empty,
      cout = [InitializerStarted, Started 7 5, Finished 7 5, Started 7 9]\<rparr> = Inl OutOfRange \<and>
   main 4 [''prog'', ''--threads'', ''2'']
     [Launch 0 0, Launch 0 0, Launch 7 5, Work 0, Launch 0 0, Line ''kill 7'' 0 0,
      Launch 7 9, Work 1, Erase, Work 0, Work 0] =
     Some (Aborted OutOfRange)"
proof -
  let ?w1 = "\<lparr>threadId = 7, pc = Register, threadValue = 5\<rparr> :: worker"
  let ?s1 = "\<lparr>programFinished = False, runningThreads = [], threadsData = Map.empty,
      cout = [InitializerStarted]\<rparr>"
  let ?s3 = "\<lparr>programFinished = False,
      runningThreads = [Joinable \<lparr>threadId = 7, pc = Register, threadValue = 5\<rparr>],
      threadsData = Map.empty, cout = [InitializerStarted]\<rparr>"
  let ?s4 = "\<lparr>programFinished = False,
      runningThreads = [Joinable \<lparr>threadId = 7, pc = LoopHead, threadValue = 5\<rparr>],
      threadsData = [7 \<mapsto> \<lparr>killed = False, value = 5\<rparr>],
      cout = [InitializerStarted, Started 7 5]\<rparr>"
  let ?s6 = "\<lparr>programFinished = False,
      runningThreads = [NotJoinable],
      threadsData = [7 \<mapsto> \<lparr>killed = True, value = 5\<rparr>],
      cout = [InitializerStarted, Started 7 5, Finished 7 5]\<rparr>"
  let ?s7 = "\<lparr>programFinished = False,
      runningThreads = [NotJoinable, Joinable \<lparr>threadId = 7, pc = Register, threadValue = 9\<rparr>],
      threadsData = [7 \<mapsto> \<lparr>killed = True, value = 5\<rparr>],
      cout = [InitializerStarted, Started 7 5, Finished 7 5]\<rparr>"
  let ?s8 = "\<lparr>programFinished = False,
      runningThreads = [NotJoinable, Joinable \<lparr>threadId = 7, pc = LoopHead, threadValue = 9\<rparr>],
      threadsData = [7 \<mapsto> \<lparr>killed = True, value = 5\<rparr>],
      cout = [InitializerStarted, Started 7 5, Finished 7 5, Started 7 9]\<rparr>"
  let ?s9 = "\<lparr>programFinished = False,
      runningThreads = [Joinable \<lparr>threadId = 7, pc = LoopHead, threadValue = 9\<rparr>],
      threadsData = Map.empty,
      cout = [InitializerStarted, Started 7 5, Finished 7 5, Started 7 9]\<rparr>"
  let ?s10 = "\<lparr>programFinished = False,
      runningThreads = [Joinable \<lparr>threadId = 7, pc = Tick, threadValue = 9\<rparr>],
      threadsData = Map.empty,
      cout = [InitializerStarted, Started 7 5, Finished 7 5, Started 7 9]\<rparr>"
  have cl: "parseCommandLine 4 [''prog'', ''--threads'', ''2''] = Inr (2, 1)"
    by (simp add: parseCommandLine_def convertArgumentToPositiveInteger_def
        stoi_def isspace_def isdigit_def digits_value_def)
  have pk: "parseCommand ''kill 7'' = (''kill'', [''7''])"
    by (simp add: parseCommand_def isspace_def)
  have vk: "stoi_at [''7''] 0 = Inr 7"
    by (simp add: stoi_at_def at_def stoi_def isspace_def isdigit_def digits_value_def)
  have e1: "exec 2 (Launch 0 0) (Listening, NotStarted, init) =
      Some (Inr (Listening, Launching 0, ?s1))"
    by (simp add: exec_def launcherStep_def say_def init_def)
  have e2: "exec 2 (Launch 0 0) (Listening, Launching 0, ?s1) =
      Some (Inr (Listening, Spawning 0, ?s1))"
    by (simp add: exec_def launcherStep_def)
  have e3: "exec 2 (Launch 7 5) (Listening, Spawning 0, ?s1) =
      Some (Inr (Listening, Launching 1, ?s3))"
    by (simp add: exec_def launcherStep_def startNewThread_def initializeThreadValue_def)
  have e4: "exec 2 (Work 0) (Listening, Launching 1, ?s3) =
      Some (Inr (Listening, Launching 1, ?s4))"
    by (simp add: exec_def workerStep_def set_worker_def map_insert_def)
  have e5: "exec 2 (Launch 0 0) (Listening, Launching 1, ?s4) =
      Some (Inr (Listening, Spawning 1, ?s4))"
    by (simp add: exec_def launcherStep_def)
  have kj: "killJoin 7 ?s4 = Some (Inr (Erasing 7 (Some 0), ?s6))"
    using join_killed_lastLines [of 0
        "?s4\<lparr>threadsData := [7 \<mapsto> \<lparr>killed = True, value = 5\<rparr>]\<rparr>"
        "\<lparr>threadId = 7, pc = LoopHead, threadValue = 5\<rparr>" "\<lparr>killed = True, value = 5\<rparr>"]
    by (simp add: killJoin_def lastLines_def)
  have d6: "dispatch 0 0 ''kill 7'' ?s4 = Some (Inr (Erasing 7 (Some 0), ?s6))"
    by (simp add: dispatch_def pk vk kj)
  have e6: "exec 2 (Line ''kill 7'' 0 0) (Listening, Spawning 1, ?s4) =
      Some (Inr (Erasing 7 (Some 0), Spawning 1, ?s6))"
    by (simp add: exec_def d6)
  have e7: "exec 2 (Launch 7 9) (Erasing 7 (Some 0), Spawning 1, ?s6) =
      Some (Inr (Erasing 7 (Some 0), Launching 2, ?s7))"
    by (simp add: exec_def launcherStep_def startNewThread_def initializeThreadValue_def)
  have e8: "exec 2 (Work 1) (Erasing 7 (Some 0), Launching 2, ?s7) =
      Some (Inr (Erasing 7 (Some 0), Launching 2, ?s8))"
    by (simp add: exec_def workerStep_def set_worker_def map_insert_def)
  have e9: "exec 2 Erase (Erasing 7 (Some 0), Launching 2, ?s8) =
      Some (Inr (Listening, Launching 2, ?s9))"
    by (simp add: exec_def killErase_def erase_def)
  have e10: "exec 2 (Work 0) (Listening, Launching 2, ?s9) =
      Some (Inr (Listening, Launching 2, ?s10))"
    by (simp add: exec_def workerStep_def set_worker_def)
  have t: "workerStep 0 ?s10 = Inl OutOfRange"
    by (simp add: workerStep_def tick_def)
  have e11: "exec 2 (Work 0) (Listening, Launching 2, ?s10) = Some (Inl OutOfRange)"
    by (simp add: exec_def t)
  have r: "run 2 [Launch 0 0, Launch 0 0, Launch 7 5, Work 0, Launch 0 0, Line ''kill 7'' 0 0,
      Launch 7 9, Work 1, Erase, Work 0, Work 0] (Listening, NotStarted, init) =
      Some (Inl OutOfRange)"
    by (simp add: e1 e2 e3 e4 e5 e6 e7 e8 e9 e10 e11 init_fields del: One_nat_def)
  have "main 4 [''prog'', ''--threads'', ''2'']
     [Launch 0 0, Launch 0 0, Launch 7 5, Work 0, Launch 0 0, Line ''kill 7'' 0 0,
      Launch 7 9, Work 1, Erase, Work 0, Work 0] = Some (Aborted OutOfRange)"
    by (simp add: main_def cl r del: run.simps One_nat_def)
  with t show ?thesis by simp
qed

end
